theory Spec2Isabelle
  imports Complex_Main "HOL-Library.Word"
begin

section \<open>Basic data: bytes, instants, text\<close>

text \<open>
  Audio chunks are Python \<^verbatim>\<open>bytes\<close> objects; an instant is a timezone-aware
  \<^verbatim>\<open>datetime\<close>, which resolves microseconds, so an instant is the integer number
  of microseconds since the epoch and the difference of two instants is a
  \<^verbatim>\<open>timedelta\<close>, again a whole number of microseconds.  \<^verbatim>\<open>total_seconds()\<close>
  divides by \<open>10\<^sup>6\<close>; seconds are rational numbers here (the rounding of the
  float division is not modelled).
\<close>

type_synonym bytes = "8 word list"
type_synonym instant = int

definition total_seconds :: "int \<Rightarrow> rat" where
  "total_seconds d = of_int d / 1000000"

text \<open>
  \<^verbatim>\<open>str.strip()\<close> removes leading and trailing whitespace, the characters for
  which \<^verbatim>\<open>str.isspace()\<close> holds.  A character of \<^typ>\<open>string\<close> is a code point
  below 256.  Among these the whitespace of Python is tab, line feed, vertical
  tab, form feed and carriage return (9 to 13), the four separators \<open>0x1C\<close> to
  \<open>0x1F\<close> (28 to 31), space (32), next line \<open>U+0085\<close> (133) and no-break space
  \<open>U+00A0\<close> (160).  Python's remaining whitespace (\<open>U+1680\<close>, \<open>U+2000\<close> to
  \<open>U+200A\<close>, \<open>U+2028\<close>, \<open>U+2029\<close>, \<open>U+202F\<close>, \<open>U+205F\<close>, \<open>U+3000\<close>) lies above 255
  and is no character of this type.
\<close>

definition isspace :: "char \<Rightarrow> bool" where
  "isspace c = ((of_char c :: nat) \<in> set [9, 10, 11, 12, 13, 28, 29, 30, 31, 32, 133, 160])"

definition strip :: "string \<Rightarrow> string" where
  "strip s = rev (dropWhile isspace (rev (dropWhile isspace s)))"


section \<open>The phrase segmenter (\<^verbatim>\<open>modules/whisper_stt.py\<close>)\<close>

text \<open>
  The fields of \<^verbatim>\<open>WhisperSTT\<close> that \<^verbatim>\<open>process_audio_queue\<close> reads and writes.
  \<open>data_queue\<close> is the queue shared with the capture thread, oldest chunk first.
\<close>

record whisper_stt =
  phrase_timeout :: rat
  data_queue :: "bytes list"
  phrase_bytes :: bytes
  phrase_time :: "instant option"

text \<open>The state that \<^verbatim>\<open>__init__\<close> builds (lines 52 to 54).\<close>

definition init_stt :: "rat \<Rightarrow> whisper_stt" where
  "init_stt timeout =
     \<lparr>phrase_timeout = timeout, data_queue = [], phrase_bytes = [], phrase_time = None\<rparr>"

text \<open>\<^verbatim>\<open>_record_callback\<close>: the capture thread puts one chunk on the queue.\<close>

definition record_callback :: "bytes \<Rightarrow> whisper_stt \<Rightarrow> whisper_stt" where
  "record_callback data s = s\<lparr>data_queue := data_queue s @ [data]\<rparr>"

text \<open>The dictionary that \<^verbatim>\<open>process_audio_queue\<close> returns, with its five keys.\<close>

record seg_result =
  r_text :: string
  r_phrase_complete :: bool
  r_pausing :: bool
  r_time_remaining :: rat
  r_timestamp :: instant

text \<open>
  \<^verbatim>\<open>process_audio_queue\<close>, branch by branch.  \<open>now\<close> is the clock read of line 135.
  \<open>asr\<close> stands for the two library calls that turn the accumulated bytes into
  text (\<^verbatim>\<open>np.frombuffer\<close> on 16-bit samples, then the Whisper model's
  \<^verbatim>\<open>transcribe(...)['text']\<close>): the ASR engine of the interface, which returns a
  text, possibly empty, for the buffer of captured samples.  The microphone is
  opened with 16-bit samples, so every chunk and every buffer is a whole number
  of samples, as \<^verbatim>\<open>np.frombuffer\<close> requires; the calls are taken to return.  The
  two callbacks
  \<^verbatim>\<open>on_transcription\<close> and \<^verbatim>\<open>on_phrase_complete\<close> are \<^verbatim>\<open>None\<close> in the application
  and are left out.  Draining the queue (lines 142 and 143) is one step.
\<close>

definition process_audio_queue ::
  "(bytes \<Rightarrow> string) \<Rightarrow> instant \<Rightarrow> whisper_stt \<Rightarrow> seg_result option \<times> whisper_stt" where
  "process_audio_queue asr now s =
     (let has_new_audio = (data_queue s \<noteq> []) in
      if has_new_audio then
        (let audio_data = concat (data_queue s);
             s1 = s\<lparr>data_queue := []\<rparr>;
             s2 = s1\<lparr>phrase_time := Some now\<rparr>;
             s3 = s2\<lparr>phrase_bytes := phrase_bytes s2 @ audio_data\<rparr>;
             text = strip (asr (phrase_bytes s3))
         in (Some \<lparr>r_text = text, r_phrase_complete = False, r_pausing = False,
                   r_time_remaining = phrase_timeout s3, r_timestamp = now\<rparr>, s3))
      else
        (case phrase_time s of
           None \<Rightarrow> (None, s)
         | Some pt \<Rightarrow>
            if phrase_bytes s = [] then (None, s)
            else
              (let time_since_stopped = total_seconds (now - pt);
                   time_remaining = phrase_timeout s - time_since_stopped
               in if time_since_stopped \<ge> phrase_timeout s then
                    (let final_text = strip (asr (phrase_bytes s));
                         s1 = s\<lparr>phrase_bytes := []\<rparr>;
                         s2 = s1\<lparr>phrase_time := None\<rparr>
                     in (Some \<lparr>r_text = final_text, r_phrase_complete = True,
                               r_pausing = False, r_time_remaining = 0,
                               r_timestamp = now\<rparr>, s2))
                  else
                    (Some \<lparr>r_text = [], r_phrase_complete = False, r_pausing = True,
                           r_time_remaining = max 0 time_remaining,
                           r_timestamp = now\<rparr>, s))))"

text \<open>
  Consecutive ticks at the given instants during which the capture thread puts
  nothing on the queue: the results in order, and the final state.
\<close>

fun quiet_ticks ::
  "(bytes \<Rightarrow> string) \<Rightarrow> instant list \<Rightarrow> whisper_stt \<Rightarrow> seg_result option list \<times> whisper_stt" where
  "quiet_ticks asr [] s = ([], s)"
| "quiet_ticks asr (now # nows) s =
     (let (r, s1) = process_audio_queue asr now s;
          (rs, s2) = quiet_ticks asr nows s1
      in (r # rs, s2))"

text \<open>The invariant of the data model, and its half that the code keeps.\<close>

definition buffer_iff_time :: "whisper_stt \<Rightarrow> bool" where
  "buffer_iff_time s = ((phrase_bytes s \<noteq> []) = (phrase_time s \<noteq> None))"

definition buffer_imp_time :: "whisper_stt \<Rightarrow> bool" where
  "buffer_imp_time s = (phrase_bytes s \<noteq> [] \<longrightarrow> phrase_time s \<noteq> None)"


section \<open>The conversation store (\<^verbatim>\<open>modules/conversation_manager.py\<close>)\<close>

text \<open>
  The values that the manager keeps in its dictionaries and writes with
  \<^verbatim>\<open>json.dump\<close>: the data model of JSON, which is what the application stores
  (strings, numbers, booleans, \<^verbatim>\<open>None\<close>, lists and dictionaries with string keys).  \<open>PyTime t\<close> is the ISO-8601 string of
  the instant \<open>t\<close> (\<^verbatim>\<open>isoformat()\<close>, read back by \<^verbatim>\<open>fromisoformat\<close>); a dictionary
  keeps its members in insertion order.  A message's timestamp is the ISO string that
  the clock read gave, a \<open>PyStr\<close>.
\<close>

datatype pyval =
    PyNone
  | PyBool bool
  | PyInt int
  | PyFloat rat
  | PyStr string
  | PyTime instant
  | PyList "pyval list"
  | PyDict "(string \<times> pyval) list"

type_synonym pydict = "(string \<times> pyval) list"

datatype error = ValueError string | KeyError string | AttributeError string

text \<open>Truth value of a Python object, as \<^verbatim>\<open>if x\<close> and \<^verbatim>\<open>not x\<close> test it.\<close>

fun truthy :: "pyval \<Rightarrow> bool" where
  "truthy PyNone = False"
| "truthy (PyBool b) = b"
| "truthy (PyInt n) = (n \<noteq> 0)"
| "truthy (PyFloat q) = (q \<noteq> 0)"
| "truthy (PyStr s) = (s \<noteq> [])"
| "truthy (PyTime t) = True"
| "truthy (PyList xs) = (xs \<noteq> [])"
| "truthy (PyDict kvs) = (kvs \<noteq> [])"

text \<open>\<^verbatim>\<open>d[k]\<close> raises \<^verbatim>\<open>KeyError\<close> on a missing key; \<^verbatim>\<open>d.get(k, default)\<close> does not.\<close>

definition getitem :: "pydict \<Rightarrow> string \<Rightarrow> error + pyval" where
  "getitem d k = (case map_of d k of None \<Rightarrow> Inl (KeyError k) | Some v \<Rightarrow> Inr v)"

definition dict_get :: "pydict \<Rightarrow> string \<Rightarrow> pyval \<Rightarrow> pyval" where
  "dict_get d k dflt = (case map_of d k of None \<Rightarrow> dflt | Some v \<Rightarrow> v)"

text \<open>
  The fields of \<^verbatim>\<open>ConversationManager\<close>, typed as the class annotates them.
\<close>

record conversation_manager =
  storage_dir :: string
  session_id :: "string option"
  pdf_context :: string
  pdf_metadata :: pydict
  conversation :: "pydict list"
  session_start :: "instant option"

text \<open>
  The session files: the JSON document stored under each path.  Writing a file
  and parsing it again gives back the document written.
\<close>

type_synonym store = "string \<rightharpoonup> pydict"

text \<open>\<^verbatim>\<open>os.path.join\<close> of two components on a POSIX system.\<close>

definition os_path_join :: "string \<Rightarrow> string \<Rightarrow> string" where
  "os_path_join a b =
     (if b \<noteq> [] \<and> hd b = CHR ''/'' then b
      else if a = [] \<or> last a = CHR ''/'' then a @ b
      else a @ ''/'' @ b)"

text \<open>
  The two counting generators of \<^verbatim>\<open>save_session\<close>:
  \<^verbatim>\<open>sum(1 for msg in self.conversation if msg['speaker'] == who)\<close>.
\<close>

fun count_speaker :: "string \<Rightarrow> pydict list \<Rightarrow> error + nat" where
  "count_speaker who [] = Inr 0"
| "count_speaker who (msg # msgs) =
     (case getitem msg ''speaker'' of
        Inl e \<Rightarrow> Inl e
      | Inr v \<Rightarrow>
         (case count_speaker who msgs of
            Inl e \<Rightarrow> Inl e
          | Inr n \<Rightarrow> Inr ((if v = PyStr who then 1 else 0) + n)))"

text \<open>
  \<^verbatim>\<open>save_session(filepath)\<close>; \<open>now\<close> is the clock read for the duration.  It
  raises when there is no session id, or when a counting generator does; otherwise
  it writes the document and returns the path.
\<close>

definition save_session ::
  "string option \<Rightarrow> instant \<Rightarrow> conversation_manager \<Rightarrow> store \<Rightarrow> error + (string \<times> store)" where
  "save_session filepath now m fs =
     (case session_id m of
        None \<Rightarrow> Inl (ValueError ''No active session to save'')
      | Some sid \<Rightarrow>
         if sid = [] then Inl (ValueError ''No active session to save'')
         else
           (let path = (case filepath of
                          None \<Rightarrow> os_path_join (storage_dir m) (sid @ ''.json'')
                        | Some p \<Rightarrow> if p = [] then os_path_join (storage_dir m) (sid @ ''.json'')
                                    else p)
            in case count_speaker ''student'' (conversation m) of
                 Inl e \<Rightarrow> Inl e
               | Inr students \<Rightarrow>
                  (case count_speaker ''bot'' (conversation m) of
                     Inl e \<Rightarrow> Inl e
                   | Inr bots \<Rightarrow>
                      (let session_data =
                         [(''session_id'', PyStr sid),
                          (''session_start'',
                             (case session_start m of None \<Rightarrow> PyNone | Some t \<Rightarrow> PyTime t)),
                          (''session_duration_seconds'',
                             (case session_start m of
                                None \<Rightarrow> PyNone
                              | Some t \<Rightarrow> PyFloat (total_seconds (now - t)))),
                          (''pdf_context'', PyStr (pdf_context m)),
                          (''pdf_metadata'', PyDict (pdf_metadata m)),
                          (''conversation'', PyList (map PyDict (conversation m))),
                          (''message_count'', PyInt (int (length (conversation m)))),
                          (''student_messages'', PyInt (int students)),
                          (''bot_messages'', PyInt (int bots))]
                       in Inr (path, fs(path \<mapsto> session_data))))))"

text \<open>
  Reading a member back into a typed field.  A member of another type than the
  field's annotation (or an instant where plain text is expected) is outside the
  typed fields; the load is then counted as failed, like a load that raises.
\<close>

fun as_opt_str :: "pyval \<Rightarrow> string option option" where
  "as_opt_str (PyStr s) = Some (Some s)"
| "as_opt_str PyNone = Some None"
| "as_opt_str _ = None"

fun as_str :: "pyval \<Rightarrow> string option" where
  "as_str (PyStr s) = Some s"
| "as_str _ = None"

fun as_dict :: "pyval \<Rightarrow> pydict option" where
  "as_dict (PyDict d) = Some d"
| "as_dict _ = None"

fun as_dicts :: "pyval list \<Rightarrow> pydict list option" where
  "as_dicts [] = Some []"
| "as_dicts (v # vs) =
     (case as_dict v of
        None \<Rightarrow> None
      | Some d \<Rightarrow> (case as_dicts vs of None \<Rightarrow> None | Some ds \<Rightarrow> Some (d # ds)))"

fun as_dict_list :: "pyval \<Rightarrow> pydict list option" where
  "as_dict_list (PyList vs) = as_dicts vs"
| "as_dict_list _ = None"

text \<open>
  \<^verbatim>\<open>datetime.fromisoformat(data['session_start']) if data.get('session_start') else None\<close>:
  the outer \<open>None\<close> is a raised exception.
\<close>

definition load_start :: "pydict \<Rightarrow> instant option option" where
  "load_start data =
     (if truthy (dict_get data ''session_start'' PyNone) then
        (case dict_get data ''session_start'' PyNone of
           PyTime t \<Rightarrow> Some (Some t)
         | _ \<Rightarrow> None)
      else Some None)"

text \<open>
  \<^verbatim>\<open>load_session(session_id)\<close>: the five assignments run in order inside the
  \<^verbatim>\<open>try\<close>, so an exception at one of them leaves the earlier ones done and makes
  the method return \<^verbatim>\<open>False\<close>.
\<close>

definition load_session ::
  "string \<Rightarrow> conversation_manager \<Rightarrow> store \<Rightarrow> bool \<times> conversation_manager" where
  "load_session sid m fs =
     (let filepath = os_path_join (storage_dir m) (sid @ ''.json'') in
      case fs filepath of
        None \<Rightarrow> (False, m)
      | Some data \<Rightarrow>
         (case getitem data ''session_id'' of
            Inl e \<Rightarrow> (False, m)
          | Inr v1 \<Rightarrow>
             (case as_opt_str v1 of
                None \<Rightarrow> (False, m)
              | Some new_id \<Rightarrow>
                 (let m1 = m\<lparr>session_id := new_id\<rparr> in
                  case load_start data of
                    None \<Rightarrow> (False, m1)
                  | Some start \<Rightarrow>
                     (let m2 = m1\<lparr>session_start := start\<rparr> in
                      case getitem data ''pdf_context'' of
                        Inl e \<Rightarrow> (False, m2)
                      | Inr v3 \<Rightarrow>
                         (case as_str v3 of
                            None \<Rightarrow> (False, m2)
                          | Some ctx \<Rightarrow>
                             (let m3 = m2\<lparr>pdf_context := ctx\<rparr> in
                              case as_dict (dict_get data ''pdf_metadata'' (PyDict [])) of
                                None \<Rightarrow> (False, m3)
                              | Some md \<Rightarrow>
                                 (let m4 = m3\<lparr>pdf_metadata := md\<rparr> in
                                  case getitem data ''conversation'' of
                                    Inl e \<Rightarrow> (False, m4)
                                  | Inr v5 \<Rightarrow>
                                     (case as_dict_list v5 of
                                        None \<Rightarrow> (False, m4)
                                      | Some conv \<Rightarrow>
                                         (True, m4\<lparr>conversation := conv\<rparr>))))))))))"

text \<open>
  \<^verbatim>\<open>add_message(speaker, text)\<close>, with the three optional arguments at their
  default \<^verbatim>\<open>None\<close> as in every call of the application: append the message, then
  save.  \<open>stamp\<close> is \<^verbatim>\<open>datetime.now(timezone.utc).isoformat()\<close> as read for the
  message, \<open>t_save\<close> the clock read of the save.  When the save raises, the
  message stays appended.
\<close>

definition add_message ::
  "string \<Rightarrow> string \<Rightarrow> string \<Rightarrow> instant \<Rightarrow> conversation_manager \<Rightarrow> store \<Rightarrow>
   (error + pydict) \<times> conversation_manager \<times> store" where
  "add_message speaker txt stamp t_save m fs =
     (let message = [(''timestamp'', PyStr stamp), (''speaker'', PyStr speaker),
                     (''text'', PyStr txt)];
          m1 = m\<lparr>conversation := conversation m @ [message]\<rparr>
      in case save_session None t_save m1 fs of
           Inl e \<Rightarrow> (Inl e, m1, fs)
         | Inr (path, fs1) \<Rightarrow> (Inr message, m1, fs1))"

text \<open>
  \<^verbatim>\<open>get_conversation_history(last_n)\<close>: the slice \<^verbatim>\<open>self.conversation[-last_n:]\<close>
  when \<^verbatim>\<open>last_n\<close> is given and not zero, the whole list otherwise.
\<close>

definition get_conversation_history :: "int option \<Rightarrow> conversation_manager \<Rightarrow> pydict list" where
  "get_conversation_history last_n m =
     (case last_n of
        None \<Rightarrow> conversation m
      | Some n \<Rightarrow>
         if n = 0 then conversation m
         else if n > 0 then drop (length (conversation m) - nat n) (conversation m)
         else drop (nat (- n)) (conversation m))"

text \<open>A turn that \<^verbatim>\<open>save_session\<close> can count: a dictionary with a speaker.\<close>

definition has_speaker :: "pydict \<Rightarrow> bool" where
  "has_speaker msg = (map_of msg ''speaker'' \<noteq> None)"

section \<open>The LLM stream client (\<^verbatim>\<open>modules/ollama_client.py\<close>)\<close>

text \<open>
  What the request of \<^verbatim>\<open>generate_stream\<close> meets, item by item: a line of the
  response body with what the loop body finds in it, or the point where an
  exception is raised (by \<^verbatim>\<open>session.post\<close>, by the iteration over the body, or
  while a line is decoded), with \<^verbatim>\<open>str(e)\<close>.
\<close>

datatype net_item =
    EmptyLine
  | BadJson
  | Reply "string option"
  | Fails string

text \<open>
  \<^verbatim>\<open>generate_stream\<close>: the fragments that the generator yields.  An empty line is
  skipped, a line that is not JSON is skipped (\<^verbatim>\<open>JSONDecodeError\<close>), an object
  yields its \<^verbatim>\<open>"response"\<close> member when that is present and not empty.  Any other
  exception ends the loop in the outer handler, which yields one fragment and
  returns.
\<close>

fun generate_stream :: "net_item list \<Rightarrow> string list" where
  "generate_stream [] = []"
| "generate_stream (EmptyLine # rest) = generate_stream rest"
| "generate_stream (BadJson # rest) = generate_stream rest"
| "generate_stream (Reply r # rest) =
     (let chunk = (case r of None \<Rightarrow> [] | Some c \<Rightarrow> c)
      in if chunk \<noteq> [] then chunk # generate_stream rest else generate_stream rest)"
| "generate_stream (Fails msg # rest) = [''[Error: '' @ msg @ '']'']"

text \<open>
  The prompt of \<^verbatim>\<open>generate_socratic_response_stream\<close>.  Its text is not rendered
  here; what is kept are the values the f-string is filled with, in order: the
  essay context, the lines of the recent conversation (speaker in upper case, and
  text) and the student's statement.
\<close>

record prompt =
  essay_context :: string
  recent_conversation :: "(pyval \<times> pyval) list"
  latest_statement :: string

definition str_upper :: "string \<Rightarrow> string" where
  "str_upper s =
     map (\<lambda>c. if 97 \<le> (of_char c :: nat) \<and> (of_char c :: nat) \<le> 122
              then char_of ((of_char c :: nat) - 32) else c) s"

fun type_name :: "pyval \<Rightarrow> string" where
  "type_name PyNone = ''NoneType''"
| "type_name (PyBool b) = ''bool''"
| "type_name (PyInt n) = ''int''"
| "type_name (PyFloat q) = ''float''"
| "type_name (PyStr s) = ''str''"
| "type_name (PyTime t) = ''str''"
| "type_name (PyList xs) = ''list''"
| "type_name (PyDict kvs) = ''dict''"

text \<open>
  \<^verbatim>\<open>.upper()\<close> exists on strings only.  The ISO string of a UTC instant has no
  lower-case letter.
\<close>

fun upper :: "pyval \<Rightarrow> error + pyval" where
  "upper (PyStr s) = Inr (PyStr (str_upper s))"
| "upper (PyTime t) = Inr (PyTime t)"
| "upper v = Inl (AttributeError
                   ([CHR 0x27] @ type_name v @ [CHR 0x27] @ '' object has no attribute ''
                    @ [CHR 0x27] @ ''upper'' @ [CHR 0x27]))"

text \<open>
  The list comprehension over \<^verbatim>\<open>conversation_history[-6:]\<close>:
  \<^verbatim>\<open>f"{msg['speaker'].upper()}: {msg['text']}"\<close> for each message in turn.
\<close>

fun history_lines :: "pydict list \<Rightarrow> error + (pyval \<times> pyval) list" where
  "history_lines [] = Inr []"
| "history_lines (msg # msgs) =
     (case getitem msg ''speaker'' of
        Inl e \<Rightarrow> Inl e
      | Inr sp \<Rightarrow>
         (case upper sp of
            Inl e \<Rightarrow> Inl e
          | Inr up \<Rightarrow>
             (case getitem msg ''text'' of
                Inl e \<Rightarrow> Inl e
              | Inr tx \<Rightarrow>
                 (case history_lines msgs of
                    Inl e \<Rightarrow> Inl e
                  | Inr ls \<Rightarrow> Inr ((up, tx) # ls)))))"

text \<open>
  \<^verbatim>\<open>generate_socratic_response_stream\<close>: build the prompt, then pass on the
  fragments of \<^verbatim>\<open>generate_stream\<close>.  \<open>server\<close> is what the request for a prompt
  meets.  An exception while the prompt is built leaves the generator before its
  first fragment (\<open>Inl\<close>).
\<close>

definition generate_socratic_response_stream ::
  "(prompt \<Rightarrow> net_item list) \<Rightarrow> string \<Rightarrow> string \<Rightarrow> pydict list \<Rightarrow>
   error + (prompt \<times> string list)" where
  "generate_socratic_response_stream server student_input ctx conversation_history =
     (case history_lines (drop (length conversation_history - 6) conversation_history) of
        Inl e \<Rightarrow> Inl e
      | Inr ls \<Rightarrow>
         (let p = \<lparr>essay_context = ctx, recent_conversation = ls,
                   latest_statement = student_input\<rparr>
          in Inr (p, generate_stream (server p))))"

fun is_failure :: "net_item \<Rightarrow> bool" where
  "is_failure (Fails msg) = True"
| "is_failure _ = False"

section \<open>The orchestrator loop (\<^verbatim>\<open>websocket_conversation\<close> in \<^verbatim>\<open>app.py\<close>)\<close>

text \<open>
  The messages that the loop sends to the client.  The timestamps of the two
  bot-response messages are not kept.
\<close>

datatype status = Listening | Pausing rat | Analyzing | Responding

datatype event =
    Status status
  | Transcription string bool instant
  | BotResponseChunk string
  | BotResponseComplete string
  | ErrorEvent string

text \<open>
  What the loop works on after the segmenter's answer: its two local variables,
  the conversation manager and the session files.
\<close>

record loop_state =
  current_student_text :: string
  last_pausing_time :: "instant option"
  manager :: conversation_manager
  files :: store

text \<open>
  What one iteration takes from outside: the chunks that the capture thread has
  put on the queue since the previous iteration, the clock reads in program
  order, and the behaviour of the Ollama server for the request of this
  iteration.  \<open>tk_now\<close> is the read of \<^verbatim>\<open>process_audio_queue\<close>, \<open>tk_check\<close> the
  read of the throttle test (line 225), \<open>tk_set\<close> the read stored after a pausing
  message is sent (line 231); the others are the reads of \<^verbatim>\<open>add_message\<close> and
  \<^verbatim>\<open>save_session\<close> for the student's and the bot's turn.
\<close>

record tick =
  tk_audio :: "bytes list"
  tk_now :: instant
  tk_check :: instant
  tk_set :: instant
  tk_student_stamp :: string
  tk_student_saved :: instant
  tk_bot_stamp :: string
  tk_bot_saved :: instant
  tk_server :: "prompt \<Rightarrow> net_item list"

text \<open>
  How an iteration ends: at the \<^verbatim>\<open>asyncio.sleep(0.25)\<close> of line 316, at the
  \<^verbatim>\<open>continue\<close> of line 242, or with an exception that leaves the loop.
\<close>

datatype outcome = Sleeps | Continues | Raises error

fun str_of_error :: "error \<Rightarrow> string" where
  "str_of_error (ValueError msg) = msg"
| "str_of_error (KeyError k) = [CHR 0x27] @ k @ [CHR 0x27]"
| "str_of_error (AttributeError msg) = msg"

text \<open>
  The \<^verbatim>\<open>async for\<close> of lines 266 to 278 over the fragments: the response
  accumulated so far and the messages sent so far go in, the final ones come out.
\<close>

fun stream_response :: "string list \<Rightarrow> string \<Rightarrow> event list \<Rightarrow> string \<times> event list" where
  "stream_response [] full_response sent = (full_response, sent)"
| "stream_response (chunk # chunks) full_response sent =
     (if chunk \<noteq> [] then
        stream_response chunks (full_response @ chunk) (sent @ [BotResponseChunk chunk])
      else stream_response chunks full_response sent)"

text \<open>
  Lines 244 to 296: a finished phrase with text.  The result is the messages
  sent, the prompts posted to the server, how the iteration ends, and the state.
\<close>

definition phrase_round_trip ::
  "string \<Rightarrow> tick \<Rightarrow> seg_result \<Rightarrow> loop_state \<Rightarrow>
   event list \<times> prompt list \<times> outcome \<times> loop_state" where
  "phrase_round_trip ctx tk r st =
     (let txt = r_text r;
          sent1 = [Transcription txt True (r_timestamp r)]
      in case add_message ''student'' txt (tk_student_stamp tk) (tk_student_saved tk)
                (manager st) (files st) of
           (Inl e, m1, fs1) \<Rightarrow> (sent1, [], Raises e, st\<lparr>manager := m1, files := fs1\<rparr>)
         | (Inr msg, m1, fs1) \<Rightarrow>
            (let st1 = st\<lparr>manager := m1, files := fs1\<rparr>;
                 sent2 = sent1 @ [Status Analyzing];
                 conversation_history = get_conversation_history (Some 10) m1;
                 sent3 = sent2 @ [Status Responding]
             in case generate_socratic_response_stream (tk_server tk) txt ctx
                       conversation_history of
                  Inl e \<Rightarrow> (sent3, [], Raises e, st1)
                | Inr (p, chunks) \<Rightarrow>
                   (let (full_response, sent4) = stream_response chunks [] sent3;
                        sent5 = sent4 @ [BotResponseComplete full_response]
                    in case add_message ''bot'' full_response (tk_bot_stamp tk)
                              (tk_bot_saved tk) m1 fs1 of
                         (Inl e, m2, fs2) \<Rightarrow>
                            (sent5, [p], Raises e, st1\<lparr>manager := m2, files := fs2\<rparr>)
                       | (Inr msg2, m2, fs2) \<Rightarrow>
                            (sent5 @ [Status Listening], [p], Sleeps,
                             st1\<lparr>manager := m2, files := fs2,
                                 current_student_text := [],
                                 last_pausing_time := None\<rparr>))))"

text \<open>
  The body of the loop after line 217, for the answer \<open>result\<close> of the segmenter.
\<close>

definition handle_result ::
  "string \<Rightarrow> tick \<Rightarrow> seg_result option \<Rightarrow> loop_state \<Rightarrow>
   event list \<times> prompt list \<times> outcome \<times> loop_state" where
  "handle_result ctx tk result st =
     (case result of
        None \<Rightarrow> ([], [], Sleeps, st)
      | Some r \<Rightarrow>
         if r_pausing r then
           (let time_remaining = r_time_remaining r in
            if (case last_pausing_time st of
                  None \<Rightarrow> True
                | Some lp \<Rightarrow> total_seconds (tk_check tk - lp) \<ge> 1 / 2)
            then ([Status (Pausing time_remaining)], [], Sleeps,
                  st\<lparr>last_pausing_time := Some (tk_set tk)\<rparr>)
            else ([], [], Sleeps, st))
         else if r_phrase_complete r then
           (let txt = r_text r in
            if strip txt = [] then
              ([Status Listening], [], Continues,
               st\<lparr>current_student_text := [], last_pausing_time := None\<rparr>)
            else phrase_round_trip ctx tk r st)
         else
           (let txt = r_text r in
            if txt \<noteq> [] \<and> txt \<noteq> current_student_text st then
              ([Transcription txt False (r_timestamp r), Status Listening], [], Sleeps,
               st\<lparr>current_student_text := txt, last_pausing_time := None\<rparr>)
            else ([], [], Sleeps, st)))"

text \<open>
  One iteration of the \<^verbatim>\<open>while True\<close> loop: the capture thread's puts of this
  period, the segmenter's tick, the body.  \<open>ctx\<close> is
  \<^verbatim>\<open>current_session["pdf_context"]\<close>.
\<close>

definition loop_iteration ::
  "(bytes \<Rightarrow> string) \<Rightarrow> string \<Rightarrow> tick \<Rightarrow> whisper_stt \<times> loop_state \<Rightarrow>
   event list \<times> prompt list \<times> outcome \<times> whisper_stt \<times> loop_state" where
  "loop_iteration asr ctx tk w =
     (let s0 = foldl (\<lambda>s chunk. record_callback chunk s) (fst w) (tk_audio tk);
          (result, s1) = process_audio_queue asr (tk_now tk) s0;
          (sent, posted, out, st1) = handle_result ctx tk result (snd w)
      in (sent, posted, out, s1, st1))"

text \<open>The variables as lines 211 and 212 set them before the loop.\<close>

definition enter_loop :: "conversation_manager \<Rightarrow> store \<Rightarrow> loop_state" where
  "enter_loop m fs =
     \<lparr>current_student_text = [], last_pausing_time = None, manager = m, files = fs\<rparr>"

text \<open>
  The loop over the given iterations, as a trace: each iteration with the
  messages it sent.  An exception ends the loop; the handler of line 320 then
  sends the error message.
\<close>

fun run_loop ::
  "(bytes \<Rightarrow> string) \<Rightarrow> string \<Rightarrow> tick list \<Rightarrow> whisper_stt \<times> loop_state \<Rightarrow>
   (tick \<times> event list) list" where
  "run_loop asr ctx [] w = []"
| "run_loop asr ctx (tk # tks) w =
     (case loop_iteration asr ctx tk w of
        (sent, posted, Raises e, w1) \<Rightarrow> [(tk, sent @ [ErrorEvent (str_of_error e)])]
      | (sent, posted, out, w1) \<Rightarrow> (tk, sent) # run_loop asr ctx tks w1)"

text \<open>
  The clock along a run.  Reads happen in program order and the clock does not
  run backwards, and \<^verbatim>\<open>asyncio.sleep(0.25)\<close> lets at least 250 ms pass; \<open>t0\<close> is
  the earliest instant at which the next iteration can start.
\<close>

fun clock_ok ::
  "(bytes \<Rightarrow> string) \<Rightarrow> string \<Rightarrow> instant \<Rightarrow> tick list \<Rightarrow> whisper_stt \<times> loop_state \<Rightarrow> bool" where
  "clock_ok asr ctx t0 [] w = True"
| "clock_ok asr ctx t0 (tk # tks) w =
     (t0 \<le> tk_now tk \<and> tk_now tk \<le> tk_check tk \<and> tk_check tk \<le> tk_set tk \<and>
      (case loop_iteration asr ctx tk w of
         (sent, posted, Raises e, w1) \<Rightarrow> True
       | (sent, posted, Continues, w1) \<Rightarrow> clock_ok asr ctx (tk_set tk) tks w1
       | (sent, posted, Sleeps, w1) \<Rightarrow> clock_ok asr ctx (tk_set tk + 250000) tks w1))"

text \<open>
  The pausing messages of a trace, each with the two clock reads that bracket
  its sending: the throttle test before it and the stored instant after it.
\<close>

fun is_pausing :: "event \<Rightarrow> bool" where
  "is_pausing (Status (Pausing q)) = True"
| "is_pausing _ = False"

fun pausing_log :: "(tick \<times> event list) list \<Rightarrow> (instant \<times> instant) list" where
  "pausing_log [] = []"
| "pausing_log ((tk, sent) # rest) =
     (if list_ex is_pausing sent then (tk_check tk, tk_set tk) # pausing_log rest
      else pausing_log rest)"

text \<open>
  Each pausing message is sent at least 500 ms after the one before it: its
  first read is at least 500000 microseconds after the second read of its
  predecessor.
\<close>

fun spaced :: "(instant \<times> instant) list \<Rightarrow> bool" where
  "spaced [] = True"
| "spaced [x] = True"
| "spaced (x # y # rest) = (snd x + 500000 \<le> fst y \<and> spaced (y # rest))"

text \<open>Reading the messages: the texts of the chunks, of the completions, of the
  incomplete transcriptions.\<close>

fun chunk_texts :: "event list \<Rightarrow> string list" where
  "chunk_texts [] = []"
| "chunk_texts (BotResponseChunk c # rest) = c # chunk_texts rest"
| "chunk_texts (e # rest) = chunk_texts rest"

fun complete_texts :: "event list \<Rightarrow> string list" where
  "complete_texts [] = []"
| "complete_texts (BotResponseComplete c # rest) = c # complete_texts rest"
| "complete_texts (e # rest) = complete_texts rest"

fun live_texts :: "event list \<Rightarrow> string list" where
  "live_texts [] = []"
| "live_texts (Transcription t False ts # rest) = t # live_texts rest"
| "live_texts (e # rest) = live_texts rest"

fun is_transcription :: "event \<Rightarrow> bool" where
  "is_transcription (Transcription t c ts) = True"
| "is_transcription _ = False"

text \<open>A live update: a result that is neither pausing nor phrase-complete.\<close>

definition is_live :: "seg_result \<Rightarrow> bool" where
  "is_live r = (\<not> r_pausing r \<and> \<not> r_phrase_complete r)"

text \<open>
  The body of the loop over a sequence of results, one per iteration: the
  messages sent, in order, and the final state.
\<close>

fun handle_all ::
  "string \<Rightarrow> tick \<Rightarrow> seg_result list \<Rightarrow> loop_state \<Rightarrow> event list \<times> loop_state" where
  "handle_all ctx tk [] st = ([], st)"
| "handle_all ctx tk (r # rs) st =
     (case handle_result ctx tk (Some r) st of
        (sent, posted, out, st1) \<Rightarrow>
          (case handle_all ctx tk rs st1 of (sent2, st2) \<Rightarrow> (sent @ sent2, st2)))"

text \<open>
  The state that the loop relies on for a round trip without exception: a session
  id, and turns that carry a speaker (a string) and a text.
\<close>

definition turn_ok :: "pydict \<Rightarrow> bool" where
  "turn_ok msg =
     ((case map_of msg ''speaker'' of
         Some (PyStr s) \<Rightarrow> True
       | Some (PyTime t) \<Rightarrow> True
       | _ \<Rightarrow> False)
      \<and> map_of msg ''text'' \<noteq> None)"

definition session_ok :: "conversation_manager \<Rightarrow> bool" where
  "session_ok m =
     ((case session_id m of None \<Rightarrow> False | Some sid \<Rightarrow> sid \<noteq> [])
      \<and> list_all turn_ok (conversation m))"

text \<open>
  A concrete session for the examples: a manager after the greeting of
  \<^verbatim>\<open>start_session\<close>, and an iteration at instant \<open>t\<close> during which the given
  chunks arrived and for which the server sends the given body.
\<close>

definition demo_manager :: conversation_manager where
  "demo_manager =
     \<lparr>storage_dir = ''conversations'', session_id = Some ''2024-01-01_10-00-00'',
      pdf_context = ''essay'', pdf_metadata = [(''title'', PyStr ''T'')],
      conversation = [[(''timestamp'', PyStr ''t0''), (''speaker'', PyStr ''bot''),
                       (''text'', PyStr ''Welcome'')]],
      session_start = Some 0\<rparr>"

definition demo_tick :: "instant \<Rightarrow> bytes list \<Rightarrow> net_item list \<Rightarrow> tick" where
  "demo_tick t audio body =
     \<lparr>tk_audio = audio, tk_now = t, tk_check = t, tk_set = t,
      tk_student_stamp = ''ts'', tk_student_saved = t,
      tk_bot_stamp = ''tb'', tk_bot_saved = t, tk_server = (\<lambda>p. body)\<rparr>"

text \<open>
  The invariant behind the spacing of pausing messages.  \<open>l\<close> is the instant
  stored when the last pausing message was sent and \<open>t0\<close> the earliest start of
  the next iteration.  Either the throttle still holds \<open>l\<close> and one sleep has
  passed; or the throttle was reset and two sleeps have passed; or it was reset,
  one sleep has passed and the phrase buffer is empty, so that a live update
  (and its sleep) must come before the segmenter can pause again.
\<close>

definition throttle_inv :: "instant \<Rightarrow> instant \<Rightarrow> whisper_stt \<times> loop_state \<Rightarrow> bool" where
  "throttle_inv l t0 w =
     (case last_pausing_time (snd w) of
        Some lp \<Rightarrow> lp = l \<and> l + 250000 \<le> t0
      | None \<Rightarrow> l + 500000 \<le> t0 \<or> (phrase_bytes (fst w) = [] \<and> l + 250000 \<le> t0))"

section \<open>Properties of the segmenter\<close>

lemma quiet_ticks_idle:
  "data_queue s = [] \<Longrightarrow> phrase_bytes s = [] \<Longrightarrow>
   quiet_ticks asr nows s = (replicate (length nows) None, s)"
  by (induction nows) (auto simp: process_audio_queue_def split: option.splits)

text \<open>
  Claim C1.  In a state with a non-empty phrase buffer and a set last-audio
  instant, a tick with an empty queue at which the silence has lasted at least
  the pause timeout returns one phrase-complete result that carries the
  (stripped) transcript of the accumulated buffer, and clears the buffer and the
  instant; every tick after it, as long as no audio is queued, returns
  \<^verbatim>\<open>None\<close>.
\<close>

theorem C1_timeout_completes_phrase:
  assumes "phrase_bytes s \<noteq> []" and "phrase_time s = Some t0" and "data_queue s = []"
    and "total_seconds (now - t0) \<ge> phrase_timeout s"
  shows "process_audio_queue asr now s =
           (Some \<lparr>r_text = strip (asr (phrase_bytes s)), r_phrase_complete = True,
                   r_pausing = False, r_time_remaining = 0, r_timestamp = now\<rparr>,
            s\<lparr>phrase_bytes := [], phrase_time := None\<rparr>)
         \<and> quiet_ticks asr nows (snd (process_audio_queue asr now s)) =
             (replicate (length nows) None, s\<lparr>phrase_bytes := [], phrase_time := None\<rparr>)"
proof -
  have step: "process_audio_queue asr now s =
           (Some \<lparr>r_text = strip (asr (phrase_bytes s)), r_phrase_complete = True,
                   r_pausing = False, r_time_remaining = 0, r_timestamp = now\<rparr>,
            s\<lparr>phrase_bytes := [], phrase_time := None\<rparr>)"
    using assms by (simp add: process_audio_queue_def)
  have "quiet_ticks asr nows (s\<lparr>phrase_bytes := [], phrase_time := None\<rparr>) =
          (replicate (length nows) None, s\<lparr>phrase_bytes := [], phrase_time := None\<rparr>)"
    using assms(3) by (intro quiet_ticks_idle) simp_all
  with step show ?thesis by simp
qed

theorem C1_timeout_completes_phrase_witness:
  "process_audio_queue (\<lambda>b. '' hello '') 6000000
     \<lparr>phrase_timeout = 5, data_queue = [], phrase_bytes = [1, 2], phrase_time = Some 0\<rparr> =
     (Some \<lparr>r_text = ''hello'', r_phrase_complete = True, r_pausing = False,
             r_time_remaining = 0, r_timestamp = 6000000\<rparr>,
      \<lparr>phrase_timeout = 5, data_queue = [], phrase_bytes = [], phrase_time = None\<rparr>)
   \<and> quiet_ticks (\<lambda>b. '' hello '') [6250000, 6500000]
       (snd (process_audio_queue (\<lambda>b. '' hello '') 6000000
         \<lparr>phrase_timeout = 5, data_queue = [], phrase_bytes = [1, 2], phrase_time = Some 0\<rparr>)) =
     ([None, None],
      \<lparr>phrase_timeout = 5, data_queue = [], phrase_bytes = [], phrase_time = None\<rparr>)"
proof -
  let ?s = "\<lparr>phrase_timeout = 5, data_queue = [], phrase_bytes = [1, 2], phrase_time = Some 0\<rparr>"
  have h: "phrase_bytes ?s \<noteq> []" "phrase_time ?s = Some 0" "data_queue ?s = []"
    "total_seconds (6000000 - 0) \<ge> phrase_timeout ?s"
    by (simp_all add: total_seconds_def)
  have e: "strip ((\<lambda>b. '' hello '') (phrase_bytes ?s)) = ''hello''"
    by (simp add: strip_def isspace_def)
  note th = C1_timeout_completes_phrase [OF h, of "\<lambda>b. '' hello ''" "[6250000, 6500000]"]
  from th [THEN conjunct1] e have a: "process_audio_queue (\<lambda>b. '' hello '') 6000000 ?s =
     (Some \<lparr>r_text = ''hello'', r_phrase_complete = True, r_pausing = False,
             r_time_remaining = 0, r_timestamp = 6000000\<rparr>,
      \<lparr>phrase_timeout = 5, data_queue = [], phrase_bytes = [], phrase_time = None\<rparr>)"
    by simp
  from th [THEN conjunct2] have b: "quiet_ticks (\<lambda>b. '' hello '') [6250000, 6500000]
       (snd (process_audio_queue (\<lambda>b. '' hello '') 6000000 ?s)) =
     ([None, None],
      \<lparr>phrase_timeout = 5, data_queue = [], phrase_bytes = [], phrase_time = None\<rparr>)"
    by (simp del: quiet_ticks.simps)
  from a b show ?thesis by blast
qed

text \<open>
  Claim C2.  A tick that finds audio on the queue takes the first branch whatever
  the state: it returns a live update (neither phrase-complete nor pausing) with
  the transcript of the grown buffer, empties the queue, appends the drained
  audio to the buffer and sets the last-audio instant to the instant of the
  tick.  So a tick followed by the arrival of a chunk and a second tick never
  completes the phrase at the second tick, however long the silence before it.
\<close>

theorem C2_new_audio_has_priority:
  "(data_queue s \<noteq> [] \<longrightarrow>
      process_audio_queue asr now s =
        (Some \<lparr>r_text = strip (asr (phrase_bytes s @ concat (data_queue s))),
                r_phrase_complete = False, r_pausing = False,
                r_time_remaining = phrase_timeout s, r_timestamp = now\<rparr>,
         s\<lparr>data_queue := [], phrase_time := Some now,
           phrase_bytes := phrase_bytes s @ concat (data_queue s)\<rparr>))
   \<and> (\<exists>r s2. process_audio_queue asr now
                 (record_callback chunk (snd (process_audio_queue asr now0 s0))) = (Some r, s2)
          \<and> \<not> r_phrase_complete r \<and> \<not> r_pausing r \<and> phrase_time s2 = Some now)"
  by (auto simp: process_audio_queue_def record_callback_def Let_def)

theorem C2_new_audio_has_priority_witness:
  "fst (process_audio_queue (\<lambda>b. ''hi'') 4900000
     \<lparr>phrase_timeout = 5, data_queue = [], phrase_bytes = [1, 2], phrase_time = Some 0\<rparr>) =
     Some \<lparr>r_text = [], r_phrase_complete = False, r_pausing = True,
            r_time_remaining = 1 / 10, r_timestamp = 4900000\<rparr>
   \<and> process_audio_queue (\<lambda>b. ''hi'') 5200000
       (record_callback [3, 4] (snd (process_audio_queue (\<lambda>b. ''hi'') 4900000
         \<lparr>phrase_timeout = 5, data_queue = [], phrase_bytes = [1, 2], phrase_time = Some 0\<rparr>))) =
     (Some \<lparr>r_text = ''hi'', r_phrase_complete = False, r_pausing = False,
             r_time_remaining = 5, r_timestamp = 5200000\<rparr>,
      \<lparr>phrase_timeout = 5, data_queue = [], phrase_bytes = [1, 2, 3, 4],
        phrase_time = Some 5200000\<rparr>)"
proof -
  let ?s0 = "\<lparr>phrase_timeout = 5, data_queue = [], phrase_bytes = [1, 2], phrase_time = Some 0\<rparr>"
  have t1: "process_audio_queue (\<lambda>b. ''hi'') 4900000 ?s0 =
      (Some \<lparr>r_text = [], r_phrase_complete = False, r_pausing = True,
            r_time_remaining = 1 / 10, r_timestamp = 4900000\<rparr>, ?s0)"
    by (simp add: process_audio_queue_def total_seconds_def)
  let ?s = "record_callback [3, 4] (snd (process_audio_queue (\<lambda>b. ''hi'') 4900000 ?s0))"
  have s: "?s = \<lparr>phrase_timeout = 5, data_queue = [[3, 4]], phrase_bytes = [1, 2],
                    phrase_time = Some 0\<rparr>"
    by (simp add: t1 record_callback_def)
  have h: "data_queue ?s \<noteq> []"
    by (simp add: s)
  have e: "strip ''hi'' = ''hi''"
    by (simp add: strip_def isspace_def)
  from C2_new_audio_has_priority [of ?s "\<lambda>b. ''hi''" 5200000, THEN conjunct1, rule_format, OF h]
  have "process_audio_queue (\<lambda>b. ''hi'') 5200000 ?s =
     (Some \<lparr>r_text = ''hi'', r_phrase_complete = False, r_pausing = False,
             r_time_remaining = 5, r_timestamp = 5200000\<rparr>,
      \<lparr>phrase_timeout = 5, data_queue = [], phrase_bytes = [1, 2, 3, 4],
        phrase_time = Some 5200000\<rparr>)"
    by (simp add: s e)
  with t1 show ?thesis by simp
qed

text \<open>
  Claim C3, as stated, fails: a tick that drains one empty chunk into the empty
  buffer of the initial state sets the last-audio instant and leaves the buffer
  empty.
\<close>

theorem C3_empty_chunk_counterexample:
  "buffer_iff_time (init_stt 5)
   \<and> buffer_iff_time (record_callback [] (init_stt 5))
   \<and> \<not> buffer_iff_time
         (snd (process_audio_queue (\<lambda>b. []) 0 (record_callback [] (init_stt 5))))"
  by (simp add: buffer_iff_time_def init_stt_def record_callback_def process_audio_queue_def)

text \<open>
  Claim C3, amended.  The invariant holds in the initial state.  For every content
  of the queue a tick keeps the half "buffer non-empty implies last-audio instant
  set", and the capture thread's put keeps both forms.  A tick keeps the
  equivalence itself when the queue is empty, when the drained chunks hold at
  least one byte, or when the buffer is already non-empty.
\<close>

theorem C3_invariant_preserved:
  "buffer_iff_time (init_stt timeout)
   \<and> (buffer_imp_time s \<longrightarrow> buffer_imp_time (snd (process_audio_queue asr now s)))
   \<and> (buffer_iff_time s \<and>
        (data_queue s = [] \<or> concat (data_queue s) \<noteq> [] \<or> phrase_bytes s \<noteq> []) \<longrightarrow>
        buffer_iff_time (snd (process_audio_queue asr now s)))
   \<and> buffer_imp_time (record_callback chunk s) = buffer_imp_time s
   \<and> buffer_iff_time (record_callback chunk s) = buffer_iff_time s"
  by (auto simp: buffer_iff_time_def buffer_imp_time_def init_stt_def record_callback_def
      process_audio_queue_def Let_def split: option.splits)

theorem C3_invariant_preserved_witness:
  "buffer_iff_time (record_callback [7, 8] (init_stt 5))
   \<and> buffer_imp_time (record_callback [7, 8] (init_stt 5))
   \<and> buffer_imp_time
        (snd (process_audio_queue (\<lambda>b. []) 0 (record_callback [7, 8] (init_stt 5))))
   \<and> buffer_iff_time
        (snd (process_audio_queue (\<lambda>b. []) 0 (record_callback [7, 8] (init_stt 5))))
   \<and> phrase_bytes
        (snd (process_audio_queue (\<lambda>b. []) 0 (record_callback [7, 8] (init_stt 5)))) = [7, 8]"
proof -
  let ?s = "record_callback [7, 8] (init_stt 5)"
  have a: "buffer_iff_time ?s" "buffer_imp_time ?s" "concat (data_queue ?s) \<noteq> []"
    by (simp_all add: buffer_iff_time_def buffer_imp_time_def init_stt_def record_callback_def)
  have b: "phrase_bytes (snd (process_audio_queue (\<lambda>b. []) 0 ?s)) = [7, 8]"
    by (simp add: init_stt_def record_callback_def process_audio_queue_def)
  from C3_invariant_preserved [of 5 ?s "\<lambda>b. []" 0 "[]"] a b show ?thesis
    by blast
qed


section \<open>Properties of the conversation store\<close>

lemma count_speaker_total:
  "list_all has_speaker msgs \<Longrightarrow> \<exists>n. count_speaker who msgs = Inr n"
  by (induction msgs) (auto simp: has_speaker_def getitem_def split: option.splits)

lemma as_dicts_map_PyDict: "as_dicts (map PyDict ds) = Some ds"
  by (induction ds) auto

text \<open>
  Claim C8.  For a manager with a session id, any sequence of turns (dictionaries
  with a speaker) and any metadata, \<^verbatim>\<open>save_session()\<close> succeeds, and
  \<^verbatim>\<open>load_session\<close> by that id, on any manager over the same storage directory,
  then returns \<^verbatim>\<open>True\<close> and leaves the same session id, the same turns in the
  same order, the same metadata, essay context and start instant.
\<close>

theorem C8_save_load_round_trip:
  assumes "session_id m = Some sid" and "sid \<noteq> []"
    and "list_all has_speaker (conversation m)"
    and "storage_dir m0 = storage_dir m"
  shows "\<exists>path fs1 m1.
           save_session None now m fs = Inr (path, fs1)
         \<and> load_session sid m0 fs1 = (True, m1)
         \<and> session_id m1 = Some sid
         \<and> conversation m1 = conversation m
         \<and> pdf_metadata m1 = pdf_metadata m
         \<and> pdf_context m1 = pdf_context m
         \<and> session_start m1 = session_start m"
proof -
  obtain ns where ns: "count_speaker ''student'' (conversation m) = Inr ns"
    using count_speaker_total [OF assms(3)] by blast
  obtain nb where nb: "count_speaker ''bot'' (conversation m) = Inr nb"
    using count_speaker_total [OF assms(3)] by blast
  let ?path = "os_path_join (storage_dir m) (sid @ ''.json'')"
  define doc where "doc =
     [(''session_id'', PyStr sid),
      (''session_start'', (case session_start m of None \<Rightarrow> PyNone | Some t \<Rightarrow> PyTime t)),
      (''session_duration_seconds'',
         (case session_start m of None \<Rightarrow> PyNone
          | Some t \<Rightarrow> PyFloat (total_seconds (now - t)))),
      (''pdf_context'', PyStr (pdf_context m)),
      (''pdf_metadata'', PyDict (pdf_metadata m)),
      (''conversation'', PyList (map PyDict (conversation m))),
      (''message_count'', PyInt (int (length (conversation m)))),
      (''student_messages'', PyInt (int ns)),
      (''bot_messages'', PyInt (int nb))]"
  have saved: "save_session None now m fs = Inr (?path, fs(?path \<mapsto> doc))"
    using assms(1,2) ns nb by (simp add: save_session_def doc_def Let_def)
  have doc: "map_of doc ''session_id'' = Some (PyStr sid)"
      "map_of doc ''session_start'' =
         Some (case session_start m of None \<Rightarrow> PyNone | Some t \<Rightarrow> PyTime t)"
      "map_of doc ''pdf_context'' = Some (PyStr (pdf_context m))"
      "map_of doc ''pdf_metadata'' = Some (PyDict (pdf_metadata m))"
      "map_of doc ''conversation'' = Some (PyList (map PyDict (conversation m)))"
    by (simp_all add: doc_def)
  have start: "load_start doc = Some (session_start m)"
    using doc(2) by (simp add: load_start_def dict_get_def split: option.splits)
  have "load_session sid m0 (fs(?path \<mapsto> doc)) =
          (True, m0\<lparr>session_id := Some sid, session_start := session_start m,
                    pdf_context := pdf_context m, pdf_metadata := pdf_metadata m,
                    conversation := conversation m\<rparr>)"
    using assms(4) doc start
    by (simp add: load_session_def getitem_def dict_get_def as_dicts_map_PyDict)
  with saved show ?thesis by simp
qed

theorem C8_save_load_round_trip_witness:
  "\<exists>path fs1 m1.
      save_session None 9000000
        \<lparr>storage_dir = ''conversations'', session_id = Some ''s1'', pdf_context = ''essay'',
         pdf_metadata = [(''title'', PyStr ''T''), (''pages'', PyInt 3)],
         conversation = [[(''timestamp'', PyStr ''t1''), (''speaker'', PyStr ''bot''),
                          (''text'', PyStr ''hello'')]],
         session_start = Some 0\<rparr> Map.empty = Inr (path, fs1)
    \<and> path = ''conversations/s1.json''
    \<and> load_session ''s1''
        \<lparr>storage_dir = ''conversations'', session_id = None, pdf_context = [],
         pdf_metadata = [], conversation = [], session_start = None\<rparr> fs1 = (True, m1)
    \<and> session_id m1 = Some ''s1''
    \<and> conversation m1 = [[(''timestamp'', PyStr ''t1''), (''speaker'', PyStr ''bot''),
                           (''text'', PyStr ''hello'')]]
    \<and> pdf_metadata m1 = [(''title'', PyStr ''T''), (''pages'', PyInt 3)]"
proof -
  let ?m = "\<lparr>storage_dir = ''conversations'', session_id = Some ''s1'', pdf_context = ''essay'',
         pdf_metadata = [(''title'', PyStr ''T''), (''pages'', PyInt 3)],
         conversation = [[(''timestamp'', PyStr ''t1''), (''speaker'', PyStr ''bot''),
                          (''text'', PyStr ''hello'')]],
         session_start = Some 0\<rparr>"
  let ?blank = "\<lparr>storage_dir = ''conversations'', session_id = None, pdf_context = [],
         pdf_metadata = [], conversation = [], session_start = None\<rparr>"
  have h: "session_id ?m = Some ''s1''" "''s1'' \<noteq> []"
    "list_all has_speaker (conversation ?m)" "storage_dir ?blank = storage_dir ?m"
    by (simp_all add: has_speaker_def)
  have j: "os_path_join ''conversations'' ''s1.json'' = ''conversations/s1.json''"
    by (simp add: os_path_join_def)
  have c: "count_speaker ''student'' [[(''timestamp'', PyStr ''t1''), (''speaker'', PyStr ''bot''),
                          (''text'', PyStr ''hello'')]] = Inr 0"
    "count_speaker ''bot'' [[(''timestamp'', PyStr ''t1''), (''speaker'', PyStr ''bot''),
                          (''text'', PyStr ''hello'')]] = Inr 1"
    by (simp_all add: getitem_def)
  have p: "\<exists>fs1. save_session None 9000000 ?m Map.empty = Inr (''conversations/s1.json'', fs1)"
    by (simp add: save_session_def j getitem_def Let_def)
  from C8_save_load_round_trip [OF h, of 9000000 Map.empty] p show ?thesis
    by (auto simp del: fun_upd_apply)
qed

section \<open>Properties of the loop body\<close>

lemma dropWhile_all_iff: "(\<forall>c\<in>set (dropWhile P s). P c) = (\<forall>c\<in>set s. P c)"
proof
  assume a: "\<forall>c\<in>set (dropWhile P s). P c"
  have "dropWhile P s = []"
  proof (rule ccontr)
    assume n: "dropWhile P s \<noteq> []"
    then have "\<not> P (hd (dropWhile P s))" by (rule hd_dropWhile)
    moreover from n have "hd (dropWhile P s) \<in> set (dropWhile P s)" by simp
    ultimately show False using a by blast
  qed
  then show "\<forall>c\<in>set s. P c" by (simp add: dropWhile_eq_Nil_conv)
next
  assume "\<forall>c\<in>set s. P c"
  then show "\<forall>c\<in>set (dropWhile P s). P c"
    by (meson set_dropWhileD)
qed

lemma strip_eq_Nil_iff: "(strip s = []) = (\<forall>c\<in>set s. isspace c)"
proof -
  have "(strip s = []) = (\<forall>c\<in>set (rev (dropWhile isspace s)). isspace c)"
    by (simp add: strip_def dropWhile_eq_Nil_conv)
  also have "\<dots> = (\<forall>c\<in>set s. isspace c)"
    by (simp add: dropWhile_all_iff)
  finally show ?thesis .
qed

text \<open>
  Claim C4.  When the segmenter's result is phrase-complete and its text is empty
  or all whitespace (every character is one that \<^verbatim>\<open>str.strip()\<close> removes, the
  no-break space and the next-line character among them), the body sends the
  single message \<open>Status Listening\<close> and goes to the next iteration: no
  transcription is sent, no prompt is posted to the server, and the manager (so
  the list of turns) and the files are as before.
\<close>

theorem C4_blank_phrase_discarded:
  assumes "r_phrase_complete r" and "\<not> r_pausing r" and "\<forall>c\<in>set (r_text r). isspace c"
  shows "handle_result ctx tk (Some r) st =
           ([Status Listening], [], Continues,
            st\<lparr>current_student_text := [], last_pausing_time := None\<rparr>)
         \<and> conversation (manager (snd (snd (snd (handle_result ctx tk (Some r) st))))) =
             conversation (manager st)
         \<and> files (snd (snd (snd (handle_result ctx tk (Some r) st)))) = files st"
  using assms by (simp add: handle_result_def strip_eq_Nil_iff Let_def)

theorem C4_blank_phrase_discarded_witness:
  "strip [CHR 0xA0, CHR '' '', CHR 0x85, CHR 0x09] = []
   \<and> handle_result ''essay'' (demo_tick 7 [] [])
     (Some \<lparr>r_text = [CHR 0xA0, CHR '' '', CHR 0x85, CHR 0x09], r_phrase_complete = True,
            r_pausing = False, r_time_remaining = 0, r_timestamp = 7\<rparr>)
     \<lparr>current_student_text = ''hi'', last_pausing_time = Some 3, manager = demo_manager,
      files = Map.empty\<rparr> =
     ([Status Listening], [], Continues,
      \<lparr>current_student_text = [], last_pausing_time = None, manager = demo_manager,
       files = Map.empty\<rparr>)"
proof -
  let ?r = "\<lparr>r_text = [CHR 0xA0, CHR '' '', CHR 0x85, CHR 0x09], r_phrase_complete = True,
            r_pausing = False, r_time_remaining = 0, r_timestamp = 7\<rparr>"
  have h: "r_phrase_complete ?r" "\<not> r_pausing ?r" "\<forall>c\<in>set (r_text ?r). isspace c"
    by (simp_all add: isspace_def)
  have s: "strip [CHR 0xA0, CHR '' '', CHR 0x85, CHR 0x09] = []"
    by (simp add: strip_def isspace_def)
  from C4_blank_phrase_discarded [OF h, THEN conjunct1] s show ?thesis by simp
qed

text \<open>
  Claim C10.  A live update whose text is the empty string sends nothing and
  changes nothing, whatever live text was sent last.
\<close>

theorem C10_empty_live_text_not_forwarded:
  assumes "is_live r" and "r_text r = []"
  shows "handle_result ctx tk (Some r) st = ([], [], Sleeps, st)"
  using assms by (simp add: handle_result_def is_live_def Let_def)

theorem C10_empty_live_text_not_forwarded_witness:
  "handle_result ''essay'' (demo_tick 7 [] [])
     (Some \<lparr>r_text = [], r_phrase_complete = False, r_pausing = False,
            r_time_remaining = 5, r_timestamp = 7\<rparr>)
     \<lparr>current_student_text = ''hi'', last_pausing_time = Some 3, manager = demo_manager,
      files = Map.empty\<rparr> =
     ([], [], Sleeps,
      \<lparr>current_student_text = ''hi'', last_pausing_time = Some 3, manager = demo_manager,
       files = Map.empty\<rparr>)"
  by (rule C10_empty_live_text_not_forwarded) (simp_all add: is_live_def)

lemma handle_live:
  "is_live r \<Longrightarrow>
   handle_result ctx tk (Some r) st =
     (if r_text r \<noteq> [] \<and> r_text r \<noteq> current_student_text st
      then ([Transcription (r_text r) False (r_timestamp r), Status Listening], [], Sleeps,
            st\<lparr>current_student_text := r_text r, last_pausing_time := None\<rparr>)
      else ([], [], Sleeps, st))"
  by (simp add: handle_result_def is_live_def Let_def)

lemma handle_all_live_Cons:
  "is_live r \<Longrightarrow>
   handle_all ctx tk (r # rs) st =
     (if r_text r \<noteq> [] \<and> r_text r \<noteq> current_student_text st
      then ([Transcription (r_text r) False (r_timestamp r), Status Listening]
              @ fst (handle_all ctx tk rs
                       (st\<lparr>current_student_text := r_text r, last_pausing_time := None\<rparr>)),
            snd (handle_all ctx tk rs
                   (st\<lparr>current_student_text := r_text r, last_pausing_time := None\<rparr>)))
      else handle_all ctx tk rs st)"
  by (simp add: handle_live split: prod.splits)

lemma live_texts_append: "live_texts (xs @ ys) = live_texts xs @ live_texts ys"
  by (induction xs rule: live_texts.induct) simp_all

lemma handle_all_live:
  "list_all is_live rs \<Longrightarrow>
   distinct_adj (current_student_text st # live_texts (fst (handle_all ctx tk rs st)))
   \<and> current_student_text (snd (handle_all ctx tk rs st)) =
       last (current_student_text st # live_texts (fst (handle_all ctx tk rs st)))
   \<and> [] \<notin> set (live_texts (fst (handle_all ctx tk rs st)))"
proof (induction rs arbitrary: st)
  case Nil
  then show ?case by simp
next
  case (Cons r rs)
  then have live: "is_live r" and rest: "list_all is_live rs" by simp_all
  show ?case
  proof (cases "r_text r \<noteq> [] \<and> r_text r \<noteq> current_student_text st")
    case True
    let ?st1 = "st\<lparr>current_student_text := r_text r, last_pausing_time := None\<rparr>"
    have cur: "current_student_text ?st1 = r_text r" by simp
    from Cons.IH [OF rest, of ?st1] True show ?thesis
      unfolding handle_all_live_Cons [OF live] cur by (auto simp: distinct_adj_Cons)
  next
    case False
    from Cons.IH [OF rest, of st] False show ?thesis
      unfolding handle_all_live_Cons [OF live] by auto
  qed
qed

text \<open>
  Claim C7, as stated, fails: two consecutive live updates that carry the same
  empty text produce no message at all, not one.
\<close>

theorem C7_identical_empty_updates_counterexample:
  "is_live \<lparr>r_text = [], r_phrase_complete = False, r_pausing = False,
            r_time_remaining = 5, r_timestamp = 0\<rparr>
   \<and> fst (handle_all [] (demo_tick 0 [] [])
        [\<lparr>r_text = [], r_phrase_complete = False, r_pausing = False,
          r_time_remaining = 5, r_timestamp = 0\<rparr>,
         \<lparr>r_text = [], r_phrase_complete = False, r_pausing = False,
          r_time_remaining = 5, r_timestamp = 250000\<rparr>]
        (enter_loop demo_manager Map.empty)) = []"
  by (simp add: is_live_def handle_result_def enter_loop_def Let_def)

text \<open>
  Claim C7, amended.  Over every sequence of live updates, each incomplete
  transcription that is sent carries a non-empty text that differs from the one
  sent before it (the first from the loop's current live text), and the loop's
  current live text is the last one sent.  Of two consecutive live updates with
  the same text the second sends nothing; together they send exactly one
  transcription when that text is non-empty and differs from the current live
  text, and none otherwise.
\<close>

theorem C7_live_updates_deduplicated:
  "(list_all is_live rs \<longrightarrow>
      distinct_adj (current_student_text st # live_texts (fst (handle_all ctx tk rs st)))
      \<and> current_student_text (snd (handle_all ctx tk rs st)) =
          last (current_student_text st # live_texts (fst (handle_all ctx tk rs st)))
      \<and> [] \<notin> set (live_texts (fst (handle_all ctx tk rs st))))
   \<and> (is_live r1 \<and> is_live r2 \<and> r_text r1 = r_text r2 \<longrightarrow>
        fst (handle_all ctx tk [r2] (snd (handle_all ctx tk [r1] st))) = []
        \<and> filter is_transcription (fst (handle_all ctx tk [r1, r2] st)) =
            (if r_text r1 \<noteq> [] \<and> r_text r1 \<noteq> current_student_text st
             then [Transcription (r_text r1) False (r_timestamp r1)] else []))"
proof (intro conjI impI)
  assume "list_all is_live rs"
  from handle_all_live [OF this, of st ctx tk]
  show "distinct_adj (current_student_text st # live_texts (fst (handle_all ctx tk rs st)))"
    and "current_student_text (snd (handle_all ctx tk rs st)) =
          last (current_student_text st # live_texts (fst (handle_all ctx tk rs st)))"
    and "[] \<notin> set (live_texts (fst (handle_all ctx tk rs st)))"
    by simp_all
next
  assume a: "is_live r1 \<and> is_live r2 \<and> r_text r1 = r_text r2"
  then show "fst (handle_all ctx tk [r2] (snd (handle_all ctx tk [r1] st))) = []"
    by (simp add: handle_all_live_Cons del: handle_all.simps(2))
  from a show "filter is_transcription (fst (handle_all ctx tk [r1, r2] st)) =
            (if r_text r1 \<noteq> [] \<and> r_text r1 \<noteq> current_student_text st
             then [Transcription (r_text r1) False (r_timestamp r1)] else [])"
    by (simp add: handle_all_live_Cons del: handle_all.simps(2))
qed

theorem C7_live_updates_deduplicated_witness:
  "fst (handle_all [] (demo_tick 0 [] [])
        [\<lparr>r_text = ''hello'', r_phrase_complete = False, r_pausing = False,
          r_time_remaining = 5, r_timestamp = 0\<rparr>,
         \<lparr>r_text = ''hello'', r_phrase_complete = False, r_pausing = False,
          r_time_remaining = 5, r_timestamp = 250000\<rparr>]
        (enter_loop demo_manager Map.empty)) = [Transcription ''hello'' False 0, Status Listening]
   \<and> filter is_transcription (fst (handle_all [] (demo_tick 0 [] [])
        [\<lparr>r_text = ''hello'', r_phrase_complete = False, r_pausing = False,
          r_time_remaining = 5, r_timestamp = 0\<rparr>,
         \<lparr>r_text = ''hello'', r_phrase_complete = False, r_pausing = False,
          r_time_remaining = 5, r_timestamp = 250000\<rparr>]
        (enter_loop demo_manager Map.empty))) = [Transcription ''hello'' False 0]"
proof -
  let ?r1 = "\<lparr>r_text = ''hello'', r_phrase_complete = False, r_pausing = False,
          r_time_remaining = 5, r_timestamp = 0\<rparr>"
  let ?r2 = "\<lparr>r_text = ''hello'', r_phrase_complete = False, r_pausing = False,
          r_time_remaining = 5, r_timestamp = 250000\<rparr>"
  have h: "is_live ?r1 \<and> is_live ?r2 \<and> r_text ?r1 = r_text ?r2"
    by (simp add: is_live_def)
  have e: "fst (handle_all [] (demo_tick 0 [] []) [?r1, ?r2] (enter_loop demo_manager Map.empty)) =
             [Transcription ''hello'' False 0, Status Listening]"
    by (simp add: handle_all_live_Cons is_live_def enter_loop_def del: handle_all.simps(2))
  from C7_live_updates_deduplicated
         [of "[]" "enter_loop demo_manager Map.empty" "[]" "demo_tick 0 [] []" ?r1 ?r2, THEN conjunct2, rule_format, OF h, THEN conjunct2]
  have "filter is_transcription (fst (handle_all [] (demo_tick 0 [] []) [?r1, ?r2] (enter_loop demo_manager Map.empty))) =
          [Transcription ''hello'' False 0]"
    by (simp add: enter_loop_def)
  with e show ?thesis by blast
qed

section \<open>The phrase round trip\<close>

lemma turn_ok_has_speaker: "turn_ok msg \<Longrightarrow> has_speaker msg"
  by (auto simp: turn_ok_def has_speaker_def split: option.splits)

lemma save_session_ok:
  assumes "session_ok m"
  shows "\<exists>path fs1. save_session None t m fs = Inr (path, fs1)"
proof -
  from assms obtain sid where sid: "session_id m = Some sid" "sid \<noteq> []"
    by (auto simp: session_ok_def split: option.splits)
  from assms have "list_all has_speaker (conversation m)"
    by (auto simp: session_ok_def list_all_iff turn_ok_has_speaker)
  then obtain ns nb where "count_speaker ''student'' (conversation m) = Inr ns"
    and "count_speaker ''bot'' (conversation m) = Inr nb"
    using count_speaker_total by blast
  with sid show ?thesis by (simp add: save_session_def Let_def)
qed

lemma add_message_session_ok:
  assumes "session_ok m"
  shows "session_ok (m\<lparr>conversation := conversation m @
                [[(''timestamp'', PyStr stamp), (''speaker'', PyStr speaker),
                  (''text'', PyStr utterance)]]\<rparr>)"
proof -
  have "turn_ok [(''timestamp'', PyStr stamp), (''speaker'', PyStr speaker),
                 (''text'', PyStr utterance)]"
    by (simp add: turn_ok_def)
  with assms show ?thesis by (simp add: session_ok_def)
qed

lemma add_message_ok:
  assumes "session_ok m"
  shows "\<exists>fs1. add_message speaker utterance stamp t m fs =
           (Inr [(''timestamp'', PyStr stamp), (''speaker'', PyStr speaker),
                 (''text'', PyStr utterance)],
            m\<lparr>conversation := conversation m @
                [[(''timestamp'', PyStr stamp), (''speaker'', PyStr speaker),
                  (''text'', PyStr utterance)]]\<rparr>, fs1)"
proof -
  let ?msg = "[(''timestamp'', PyStr stamp), (''speaker'', PyStr speaker),
               (''text'', PyStr utterance)]"
  let ?m1 = "m\<lparr>conversation := conversation m @ [?msg]\<rparr>"
  have ok: "session_ok ?m1" by (rule add_message_session_ok [OF assms])
  from save_session_ok [OF ok, of t fs] obtain path fs1
    where "save_session None t ?m1 fs = Inr (path, fs1)" by blast
  then show ?thesis
    by (simp add: add_message_def Let_def)
qed

lemma history_lines_ok: "list_all turn_ok msgs \<Longrightarrow> \<exists>ls. history_lines msgs = Inr ls"
proof (induction msgs)
  case Nil
  then show ?case by simp
next
  case (Cons msg msgs)
  then obtain ls where ls: "history_lines msgs = Inr ls" by auto
  from Cons.prems have "turn_ok msg" by simp
  then obtain sp tx where "map_of msg ''speaker'' = Some sp" and "\<exists>up. upper sp = Inr up"
    and "map_of msg ''text'' = Some tx"
    by (auto simp: turn_ok_def split: option.splits pyval.splits)
  with ls show ?case by (auto simp: getitem_def)
qed

lemma generate_socratic_response_stream_ok:
  assumes "list_all turn_ok h"
  shows "\<exists>p. generate_socratic_response_stream server txt ctx h = Inr (p, generate_stream (server p))
             \<and> essay_context p = ctx \<and> latest_statement p = txt"
proof -
  from assms have "list_all turn_ok (drop (length h - 6) h)"
    by (auto simp: list_all_iff dest: in_set_dropD)
  then obtain ls where "history_lines (drop (length h - 6) h) = Inr ls"
    using history_lines_ok by blast
  then show ?thesis by (simp add: generate_socratic_response_stream_def Let_def)
qed

lemma get_conversation_history_ok:
  "list_all turn_ok (conversation m) \<Longrightarrow> list_all turn_ok (get_conversation_history n m)"
  by (auto simp: get_conversation_history_def list_all_iff split: option.splits
      dest: in_set_dropD)

lemma stream_response_eq:
  "stream_response chunks full sent =
     (full @ concat chunks, sent @ map BotResponseChunk (filter (\<lambda>c. c \<noteq> []) chunks))"
  by (induction chunks arbitrary: full sent) simp_all

lemma concat_filter_nonempty: "concat (filter (\<lambda>c. c \<noteq> []) xs) = concat xs"
  by (induction xs) simp_all

lemma generate_stream_nonempty: "[] \<notin> set (generate_stream items)"
  by (induction items rule: generate_stream.induct) (simp_all add: Let_def)

lemma chunk_texts_append: "chunk_texts (xs @ ys) = chunk_texts xs @ chunk_texts ys"
  by (induction xs rule: chunk_texts.induct) simp_all

lemma chunk_texts_map: "chunk_texts (map BotResponseChunk cs) = cs"
  by (induction cs) simp_all

lemma complete_texts_append: "complete_texts (xs @ ys) = complete_texts xs @ complete_texts ys"
  by (induction xs rule: complete_texts.induct) simp_all

lemma complete_texts_map: "complete_texts (map BotResponseChunk cs) = []"
  by (induction cs) simp_all

text \<open>
  The round trip in a session with an id and well-formed turns: what is sent,
  what is posted, and the state after it.
\<close>

lemma phrase_round_trip_ok:
  assumes "session_ok (manager st)"
  shows "\<exists>p fs2.
           essay_context p = ctx \<and> latest_statement p = r_text r \<and>
           phrase_round_trip ctx tk r st =
             ([Transcription (r_text r) True (r_timestamp r), Status Analyzing, Status Responding]
                @ map BotResponseChunk (generate_stream (tk_server tk p))
                @ [BotResponseComplete (concat (generate_stream (tk_server tk p))),
                   Status Listening],
              [p], Sleeps,
              st\<lparr>manager := (manager st)\<lparr>conversation := conversation (manager st) @
                     [[(''timestamp'', PyStr (tk_student_stamp tk)), (''speaker'', PyStr ''student''),
                       (''text'', PyStr (r_text r))],
                      [(''timestamp'', PyStr (tk_bot_stamp tk)), (''speaker'', PyStr ''bot''),
                       (''text'', PyStr (concat (generate_stream (tk_server tk p))))]]\<rparr>,
                 files := fs2, current_student_text := [], last_pausing_time := None\<rparr>)"
proof -
  let ?smsg = "[(''timestamp'', PyStr (tk_student_stamp tk)), (''speaker'', PyStr ''student''),
                (''text'', PyStr (r_text r))]"
  let ?m1 = "(manager st)\<lparr>conversation := conversation (manager st) @ [?smsg]\<rparr>"
  from add_message_ok [OF assms, where speaker = "''student''" and utterance = "r_text r"
      and stamp = "tk_student_stamp tk" and t = "tk_student_saved tk" and fs = "files st"]
  obtain fs1 where
    a1: "add_message ''student'' (r_text r) (tk_student_stamp tk) (tk_student_saved tk)
           (manager st) (files st) = (Inr ?smsg, ?m1, fs1)" by blast
  have ok1: "session_ok ?m1" by (rule add_message_session_ok [OF assms])
  from ok1 have "list_all turn_ok (get_conversation_history (Some 10) ?m1)"
    by (intro get_conversation_history_ok) (simp add: session_ok_def)
  from generate_socratic_response_stream_ok [OF this, of "tk_server tk" "r_text r" ctx]
  obtain p where
    g: "generate_socratic_response_stream (tk_server tk) (r_text r) ctx
          (get_conversation_history (Some 10) ?m1) = Inr (p, generate_stream (tk_server tk p))"
    and p: "essay_context p = ctx" "latest_statement p = r_text r" by blast
  let ?chunks = "generate_stream (tk_server tk p)"
  let ?bmsg = "[(''timestamp'', PyStr (tk_bot_stamp tk)), (''speaker'', PyStr ''bot''),
                (''text'', PyStr (concat ?chunks))]"
  let ?m2 = "?m1\<lparr>conversation := conversation ?m1 @ [?bmsg]\<rparr>"
  from add_message_ok [OF ok1, where speaker = "''bot''" and utterance = "concat ?chunks"
      and stamp = "tk_bot_stamp tk" and t = "tk_bot_saved tk" and fs = fs1]
  obtain fs2 where
    a2: "add_message ''bot'' (concat ?chunks) (tk_bot_stamp tk) (tk_bot_saved tk) ?m1 fs1 =
           (Inr ?bmsg, ?m2, fs2)" by blast
  have keep: "filter (\<lambda>c. c \<noteq> []) ?chunks = ?chunks"
    using generate_stream_nonempty [of "tk_server tk p"] by (auto simp: filter_id_conv)
  have "phrase_round_trip ctx tk r st =
          ([Transcription (r_text r) True (r_timestamp r), Status Analyzing, Status Responding]
             @ map BotResponseChunk ?chunks
             @ [BotResponseComplete (concat ?chunks), Status Listening],
           [p], Sleeps,
           st\<lparr>manager := ?m2, files := fs2, current_student_text := [],
              last_pausing_time := None\<rparr>)"
    by (simp add: phrase_round_trip_def Let_def a1 g a2 stream_response_eq keep)
  with p show ?thesis by (intro exI [of _ p] exI [of _ fs2]) simp
qed

text \<open>
  Claim C5.  The loop over the fragments, for every finite sequence of them,
  accumulates exactly the concatenation of the chunks it sends.  In a round trip
  (a finished phrase with text, in a session with an id and well-formed turns)
  the chunk messages are followed by one completion message whose text is their
  concatenation in order of arrival, and the bot turn appended to the
  conversation carries that same text.
\<close>

theorem C5_chunks_concatenate_to_complete:
  "fst (stream_response fragments [] sent0) =
     concat (chunk_texts (snd (stream_response fragments [] [])))
   \<and> (r_phrase_complete r \<and> \<not> r_pausing r \<and> strip (r_text r) \<noteq> []
        \<and> session_ok (manager st) \<longrightarrow>
       (\<exists>sent posted st1 full before.
          handle_result ctx tk (Some r) st = (sent, posted, Sleeps, st1)
        \<and> sent = before @ map BotResponseChunk (chunk_texts sent)
                   @ [BotResponseComplete full, Status Listening]
        \<and> chunk_texts before = [] \<and> complete_texts before = []
        \<and> concat (chunk_texts sent) = full
        \<and> complete_texts sent = [full]
        \<and> conversation (manager st1) =
            conversation (manager st) @
              [[(''timestamp'', PyStr (tk_student_stamp tk)), (''speaker'', PyStr ''student''),
                (''text'', PyStr (r_text r))],
               [(''timestamp'', PyStr (tk_bot_stamp tk)), (''speaker'', PyStr ''bot''),
                (''text'', PyStr full)]]))"
proof (intro conjI impI)
  show "fst (stream_response fragments [] sent0) =
          concat (chunk_texts (snd (stream_response fragments [] [])))"
    by (simp add: stream_response_eq chunk_texts_map concat_filter_nonempty)
next
  assume a: "r_phrase_complete r \<and> \<not> r_pausing r \<and> strip (r_text r) \<noteq> []
             \<and> session_ok (manager st)"
  then have ok: "session_ok (manager st)" by simp
  from phrase_round_trip_ok [OF ok, of ctx r tk] obtain p fs2 where
    rt: "phrase_round_trip ctx tk r st =
             ([Transcription (r_text r) True (r_timestamp r), Status Analyzing, Status Responding]
                @ map BotResponseChunk (generate_stream (tk_server tk p))
                @ [BotResponseComplete (concat (generate_stream (tk_server tk p))),
                   Status Listening],
              [p], Sleeps,
              st\<lparr>manager := (manager st)\<lparr>conversation := conversation (manager st) @
                     [[(''timestamp'', PyStr (tk_student_stamp tk)), (''speaker'', PyStr ''student''),
                       (''text'', PyStr (r_text r))],
                      [(''timestamp'', PyStr (tk_bot_stamp tk)), (''speaker'', PyStr ''bot''),
                       (''text'', PyStr (concat (generate_stream (tk_server tk p))))]]\<rparr>,
                 files := fs2, current_student_text := [], last_pausing_time := None\<rparr>)"
    by blast
  let ?chunks = "generate_stream (tk_server tk p)"
  let ?before = "[Transcription (r_text r) True (r_timestamp r), Status Analyzing, Status Responding]"
  let ?sent = "?before @ map BotResponseChunk ?chunks
                 @ [BotResponseComplete (concat ?chunks), Status Listening]"
  have ct: "chunk_texts ?sent = ?chunks"
    by (simp add: chunk_texts_append chunk_texts_map)
  have cc: "complete_texts ?sent = [concat ?chunks]"
    by (simp add: complete_texts_append complete_texts_map)
  from a rt have hr: "handle_result ctx tk (Some r) st = (?sent, [p], Sleeps,
              st\<lparr>manager := (manager st)\<lparr>conversation := conversation (manager st) @
                     [[(''timestamp'', PyStr (tk_student_stamp tk)), (''speaker'', PyStr ''student''),
                       (''text'', PyStr (r_text r))],
                      [(''timestamp'', PyStr (tk_bot_stamp tk)), (''speaker'', PyStr ''bot''),
                       (''text'', PyStr (concat ?chunks))]]\<rparr>,
                 files := fs2, current_student_text := [], last_pausing_time := None\<rparr>)"
    by (simp add: handle_result_def Let_def)
  show "\<exists>sent posted st1 full before.
          handle_result ctx tk (Some r) st = (sent, posted, Sleeps, st1)
        \<and> sent = before @ map BotResponseChunk (chunk_texts sent)
                   @ [BotResponseComplete full, Status Listening]
        \<and> chunk_texts before = [] \<and> complete_texts before = []
        \<and> concat (chunk_texts sent) = full
        \<and> complete_texts sent = [full]
        \<and> conversation (manager st1) =
            conversation (manager st) @
              [[(''timestamp'', PyStr (tk_student_stamp tk)), (''speaker'', PyStr ''student''),
                (''text'', PyStr (r_text r))],
               [(''timestamp'', PyStr (tk_bot_stamp tk)), (''speaker'', PyStr ''bot''),
                (''text'', PyStr full)]]"
  proof (intro exI conjI)
    show "handle_result ctx tk (Some r) st = (?sent, [p], Sleeps,
              st\<lparr>manager := (manager st)\<lparr>conversation := conversation (manager st) @
                     [[(''timestamp'', PyStr (tk_student_stamp tk)), (''speaker'', PyStr ''student''),
                       (''text'', PyStr (r_text r))],
                      [(''timestamp'', PyStr (tk_bot_stamp tk)), (''speaker'', PyStr ''bot''),
                       (''text'', PyStr (concat ?chunks))]]\<rparr>,
                 files := fs2, current_student_text := [], last_pausing_time := None\<rparr>)"
      by (rule hr)
    show "?sent = ?before @ map BotResponseChunk (chunk_texts ?sent)
                   @ [BotResponseComplete (concat ?chunks), Status Listening]"
      by (simp only: ct)
    show "chunk_texts ?before = []" by simp
    show "complete_texts ?before = []" by simp
    show "concat (chunk_texts ?sent) = concat ?chunks" by (simp only: ct)
    show "complete_texts ?sent = [concat ?chunks]" by (rule cc)
  qed simp
qed

lemma demo_session_ok: "session_ok demo_manager"
  by (simp add: session_ok_def demo_manager_def turn_ok_def)

theorem C5_chunks_concatenate_to_complete_witness:
  "r_phrase_complete \<lparr>r_text = ''hello'', r_phrase_complete = True, r_pausing = False,
                      r_time_remaining = 0, r_timestamp = 6000000\<rparr>
   \<and> strip ''hello'' \<noteq> []
   \<and> session_ok (manager (enter_loop demo_manager Map.empty))
   \<and> (\<exists>sent posted st1 full before.
          handle_result ''essay''
            (demo_tick 6000000 [] [Reply (Some ''Why''), EmptyLine, Reply (Some '' so?'')])
            (Some \<lparr>r_text = ''hello'', r_phrase_complete = True, r_pausing = False,
                   r_time_remaining = 0, r_timestamp = 6000000\<rparr>)
            (enter_loop demo_manager Map.empty) = (sent, posted, Sleeps, st1)
        \<and> sent = before @ map BotResponseChunk (chunk_texts sent)
                   @ [BotResponseComplete full, Status Listening]
        \<and> chunk_texts before = [] \<and> complete_texts before = []
        \<and> concat (chunk_texts sent) = full
        \<and> complete_texts sent = [full]
        \<and> conversation (manager st1) =
            conversation (manager (enter_loop demo_manager Map.empty)) @
              [[(''timestamp'', PyStr ''ts''), (''speaker'', PyStr ''student''),
                (''text'', PyStr ''hello'')],
               [(''timestamp'', PyStr ''tb''), (''speaker'', PyStr ''bot''),
                (''text'', PyStr full)]])"
proof -
  let ?r = "\<lparr>r_text = ''hello'', r_phrase_complete = True, r_pausing = False,
            r_time_remaining = 0, r_timestamp = 6000000\<rparr>"
  let ?tk = "demo_tick 6000000 [] [Reply (Some ''Why''), EmptyLine, Reply (Some '' so?'')]"
  let ?st = "enter_loop demo_manager Map.empty"
  have s: "strip ''hello'' \<noteq> []"
    by (simp add: strip_def isspace_def)
  have ok: "session_ok (manager ?st)"
    by (simp add: enter_loop_def demo_session_ok)
  have h: "r_phrase_complete ?r \<and> \<not> r_pausing ?r \<and> strip (r_text ?r) \<noteq> []
           \<and> session_ok (manager ?st)"
    using s ok by simp
  have stamps: "tk_student_stamp ?tk = ''ts''" "tk_bot_stamp ?tk = ''tb''"
    by (simp_all add: demo_tick_def)
  from C5_chunks_concatenate_to_complete
         [of "[]" "[]" ?r ?st "''essay''" ?tk, THEN conjunct2, rule_format, OF h]
  show ?thesis using s ok by (simp add: stamps)
qed

text \<open>The same round trip, computed.\<close>

lemma round_trip_example:
  "fst (handle_result ''essay''
          (demo_tick 6000000 [] [Reply (Some ''Why''), EmptyLine, Reply (Some '' so?'')])
          (Some \<lparr>r_text = ''hello'', r_phrase_complete = True, r_pausing = False,
                 r_time_remaining = 0, r_timestamp = 6000000\<rparr>)
          (enter_loop demo_manager Map.empty)) =
     [Transcription ''hello'' True 6000000, Status Analyzing, Status Responding,
      BotResponseChunk ''Why'', BotResponseChunk '' so?'',
      BotResponseComplete ''Why so?'', Status Listening]"
proof -
  have s: "strip ''hello'' \<noteq> []"
    by (simp add: strip_def isspace_def)
  from phrase_round_trip_ok [of "enter_loop demo_manager Map.empty" "''essay''"
      "\<lparr>r_text = ''hello'', r_phrase_complete = True, r_pausing = False,
                 r_time_remaining = 0, r_timestamp = 6000000\<rparr>"
      "demo_tick 6000000 [] [Reply (Some ''Why''), EmptyLine, Reply (Some '' so?'')]"]
  show ?thesis
    using s by (auto simp: handle_result_def enter_loop_def demo_session_ok demo_tick_def)
qed

lemma generate_stream_append_failure:
  "list_all (\<lambda>i. \<not> is_failure i) before \<Longrightarrow>
   generate_stream (before @ Fails msg # rest) =
     generate_stream before @ [''[Error: '' @ msg @ '']'']"
  by (induction before rule: generate_stream.induct) (simp_all add: Let_def)

text \<open>
  Claim C9.  When the request raises an exception after any number of lines
  (none, or some that gave fragments or were skipped), the stream has the
  fragments of those lines, then the one fragment \<open>[Error: msg]\<close>, and ends.
  In a round trip the loop body sends that fragment as the last chunk, completes
  the response, ends with \<open>Status Listening\<close> and goes on to the sleep of a normal
  iteration, in a session that is still well-formed.
\<close>

theorem C9_failure_yields_error_fragment:
  "(list_all (\<lambda>i. \<not> is_failure i) before \<longrightarrow>
      generate_stream (before @ Fails msg # rest) =
        generate_stream before @ [''[Error: '' @ msg @ '']''])
   \<and> (list_all (\<lambda>i. \<not> is_failure i) before
        \<and> (\<forall>p. tk_server tk p = before @ Fails msg # rest)
        \<and> r_phrase_complete r \<and> \<not> r_pausing r \<and> strip (r_text r) \<noteq> []
        \<and> session_ok (manager st) \<longrightarrow>
       (\<exists>sent posted st1.
          handle_result ctx tk (Some r) st = (sent, posted, Sleeps, st1)
        \<and> chunk_texts sent = generate_stream before @ [''[Error: '' @ msg @ '']'']
        \<and> complete_texts sent = [concat (generate_stream before) @ ''[Error: '' @ msg @ '']'']
        \<and> last sent = Status Listening
        \<and> current_student_text st1 = [] \<and> last_pausing_time st1 = None
        \<and> session_ok (manager st1)))"
proof (intro conjI impI)
  assume "list_all (\<lambda>i. \<not> is_failure i) before"
  then show "generate_stream (before @ Fails msg # rest) =
               generate_stream before @ [''[Error: '' @ msg @ '']'']"
    by (rule generate_stream_append_failure)
next
  assume a: "list_all (\<lambda>i. \<not> is_failure i) before
        \<and> (\<forall>p. tk_server tk p = before @ Fails msg # rest)
        \<and> r_phrase_complete r \<and> \<not> r_pausing r \<and> strip (r_text r) \<noteq> []
        \<and> session_ok (manager st)"
  then have ok: "session_ok (manager st)" by simp
  from a have gs: "\<And>p. generate_stream (tk_server tk p) =
                      generate_stream before @ [''[Error: '' @ msg @ '']'']"
    by (simp add: generate_stream_append_failure)
  let ?chunks = "generate_stream before @ [''[Error: '' @ msg @ '']'']"
  let ?m2 = "(manager st)\<lparr>conversation := conversation (manager st) @
                     [[(''timestamp'', PyStr (tk_student_stamp tk)), (''speaker'', PyStr ''student''),
                       (''text'', PyStr (r_text r))],
                      [(''timestamp'', PyStr (tk_bot_stamp tk)), (''speaker'', PyStr ''bot''),
                       (''text'', PyStr (concat ?chunks))]]\<rparr>"
  from phrase_round_trip_ok [OF ok, of ctx r tk] obtain p fs2 where
    rt: "phrase_round_trip ctx tk r st =
             ([Transcription (r_text r) True (r_timestamp r), Status Analyzing, Status Responding]
                @ map BotResponseChunk ?chunks
                @ [BotResponseComplete (concat ?chunks), Status Listening],
              [p], Sleeps,
              st\<lparr>manager := ?m2, files := fs2, current_student_text := [],
                 last_pausing_time := None\<rparr>)"
    unfolding gs by blast
  have ok2: "session_ok ?m2"
    using ok by (simp add: session_ok_def turn_ok_def)
  let ?sent = "[Transcription (r_text r) True (r_timestamp r), Status Analyzing, Status Responding]
                @ map BotResponseChunk ?chunks
                @ [BotResponseComplete (concat ?chunks), Status Listening]"
  have ct: "chunk_texts ?sent = ?chunks"
    by (simp add: chunk_texts_append chunk_texts_map del: map_append)
  have cc: "complete_texts ?sent = [concat ?chunks]"
    by (simp add: complete_texts_append complete_texts_map del: map_append)
  from a rt have hr: "handle_result ctx tk (Some r) st =
      (?sent, [p], Sleeps,
       st\<lparr>manager := ?m2, files := fs2, current_student_text := [],
          last_pausing_time := None\<rparr>)"
    by (simp add: handle_result_def Let_def)
  show "\<exists>sent posted st1.
          handle_result ctx tk (Some r) st = (sent, posted, Sleeps, st1)
        \<and> chunk_texts sent = generate_stream before @ [''[Error: '' @ msg @ '']'']
        \<and> complete_texts sent = [concat (generate_stream before) @ ''[Error: '' @ msg @ '']'']
        \<and> last sent = Status Listening
        \<and> current_student_text st1 = [] \<and> last_pausing_time st1 = None
        \<and> session_ok (manager st1)"
  proof (intro exI conjI)
    show "handle_result ctx tk (Some r) st =
      (?sent, [p], Sleeps,
       st\<lparr>manager := ?m2, files := fs2, current_student_text := [],
          last_pausing_time := None\<rparr>)" by (rule hr)
    show "chunk_texts ?sent = ?chunks" by (rule ct)
    show "complete_texts ?sent = [concat (generate_stream before) @ ''[Error: '' @ msg @ '']'']"
      using cc by simp
    show "last ?sent = Status Listening" by simp
    show "session_ok (manager (st\<lparr>manager := ?m2, files := fs2, current_student_text := [],
          last_pausing_time := None\<rparr>))" using ok2 by simp
  qed simp_all
qed

theorem C9_failure_yields_error_fragment_witness:
  "generate_stream ([Reply (Some ''Why''), BadJson] @ Fails ''connection reset'' # [Reply (Some ''x'')]) =
     [''Why'', ''[Error: connection reset]'']
   \<and> (\<exists>sent posted st1.
          handle_result ''essay''
            (demo_tick 6000000 []
               ([Reply (Some ''Why''), BadJson] @ Fails ''connection reset'' # [Reply (Some ''x'')]))
            (Some \<lparr>r_text = ''hello'', r_phrase_complete = True, r_pausing = False,
                   r_time_remaining = 0, r_timestamp = 6000000\<rparr>)
            (enter_loop demo_manager Map.empty) = (sent, posted, Sleeps, st1)
        \<and> chunk_texts sent = [''Why'', ''[Error: connection reset]'']
        \<and> complete_texts sent = [''Why[Error: connection reset]'']
        \<and> last sent = Status Listening
        \<and> session_ok (manager st1))"
proof -
  let ?before = "[Reply (Some ''Why''), BadJson]"
  let ?body = "?before @ Fails ''connection reset'' # [Reply (Some ''x'')]"
  let ?r = "\<lparr>r_text = ''hello'', r_phrase_complete = True, r_pausing = False,
            r_time_remaining = 0, r_timestamp = 6000000\<rparr>"
  let ?tk = "demo_tick 6000000 [] ?body"
  let ?st = "enter_loop demo_manager Map.empty"
  have b: "list_all (\<lambda>i. \<not> is_failure i) ?before" by simp
  have s: "strip ''hello'' \<noteq> []"
    by (simp add: strip_def isspace_def)
  have h: "list_all (\<lambda>i. \<not> is_failure i) ?before
        \<and> (\<forall>p. tk_server ?tk p = ?before @ Fails ''connection reset'' # [Reply (Some ''x'')])
        \<and> r_phrase_complete ?r \<and> \<not> r_pausing ?r \<and> strip (r_text ?r) \<noteq> []
        \<and> session_ok (manager ?st)"
    using s by (simp add: demo_tick_def enter_loop_def demo_session_ok)
  note th = C9_failure_yields_error_fragment
              [of ?before "''connection reset''" "[Reply (Some ''x'')]" ?tk ?r ?st "''essay''"]
  have g: "generate_stream ?before = [''Why'']" by simp
  from th [THEN conjunct1, rule_format, OF b] g
  have one: "generate_stream ?body = [''Why'', ''[Error: connection reset]'']"
    by simp
  from th [THEN conjunct2, rule_format, OF h] g
  have two: "\<exists>sent posted st1.
          handle_result ''essay'' ?tk (Some ?r) ?st = (sent, posted, Sleeps, st1)
        \<and> chunk_texts sent = [''Why'', ''[Error: connection reset]'']
        \<and> complete_texts sent = [''Why[Error: connection reset]'']
        \<and> last sent = Status Listening
        \<and> session_ok (manager st1)"
    by simp blast
  from one two show ?thesis by blast
qed

section \<open>The spacing of pausing messages\<close>

lemma half_second: "(1 / 2 \<le> total_seconds d) = (500000 \<le> d)"
proof -
  have "(1 / 2 \<le> total_seconds d) = ((500000::rat) \<le> of_int d)"
    by (simp add: total_seconds_def field_simps)
  also have "\<dots> = (500000 \<le> d)"
    by (metis of_int_le_iff of_int_numeral)
  finally show ?thesis .
qed

lemma throttle_guard: "(1 / 2 \<le> total_seconds (c - lp)) = (lp + 500000 \<le> c)"
  unfolding half_second by linarith

lemma puts_keep_buffer:
  "phrase_bytes (foldl (\<lambda>s chunk. record_callback chunk s) s chunks) = phrase_bytes s"
  by (induction chunks arbitrary: s) (simp_all add: record_callback_def)

lemma tick_new_audio:
  "data_queue s \<noteq> [] \<Longrightarrow>
   \<exists>r s1. process_audio_queue asr now s = (Some r, s1) \<and> is_live r"
  by (simp add: process_audio_queue_def Let_def is_live_def)

lemma tick_idle:
  "data_queue s = [] \<Longrightarrow> phrase_time s = None \<or> phrase_bytes s = [] \<Longrightarrow>
   process_audio_queue asr now s = (None, s)"
  by (auto simp: process_audio_queue_def split: option.splits)

lemma tick_silence:
  "data_queue s = [] \<Longrightarrow> phrase_time s = Some pt \<Longrightarrow> phrase_bytes s \<noteq> [] \<Longrightarrow>
   \<exists>r s1. process_audio_queue asr now s = (Some r, s1) \<and>
     ((r_pausing r \<and> \<not> r_phrase_complete r \<and> s1 = s)
      \<or> (\<not> r_pausing r \<and> r_phrase_complete r \<and> phrase_bytes s1 = []))"
  by (simp add: process_audio_queue_def Let_def)

lemma tick_cases:
  assumes "process_audio_queue asr now s = (result, s1)"
  shows "(result = None \<and> s1 = s)
       \<or> (\<exists>r. result = Some r \<and> r_pausing r \<and> \<not> r_phrase_complete r \<and> s1 = s
               \<and> phrase_bytes s \<noteq> [])
       \<or> (\<exists>r. result = Some r \<and> \<not> r_pausing r \<and> r_phrase_complete r
               \<and> phrase_bytes s1 = [])
       \<or> (\<exists>r. result = Some r \<and> is_live r)"
proof (cases "data_queue s = []")
  case False
  from tick_new_audio [OF this, of asr now] assms show ?thesis by auto
next
  case True
  show ?thesis
  proof (cases "phrase_time s = None \<or> phrase_bytes s = []")
    case idle: True
    from tick_idle [OF True idle, of asr now] assms show ?thesis by simp
  next
    case False
    then obtain pt where pt: "phrase_time s = Some pt" and nb: "phrase_bytes s \<noteq> []"
      by auto
    from tick_silence [OF True pt nb, of asr now] assms nb show ?thesis by auto
  qed
qed

lemma no_pausing_in_chunks: "\<not> list_ex is_pausing (map BotResponseChunk cs)"
  by (induction cs) simp_all

lemma phrase_round_trip_cases:
  assumes "phrase_round_trip ctx tk r st = (sent, posted, out, st1)"
  shows "\<not> list_ex is_pausing sent \<and> out \<noteq> Continues
         \<and> (out = Sleeps \<longrightarrow> last_pausing_time st1 = None)"
proof -
  obtain a1 m1 fs1 where
    s: "add_message ''student'' (r_text r) (tk_student_stamp tk) (tk_student_saved tk)
          (manager st) (files st) = (a1, m1, fs1)"
    by (cases "add_message ''student'' (r_text r) (tk_student_stamp tk) (tk_student_saved tk)
          (manager st) (files st)") auto
  show ?thesis
  proof (cases a1)
    case (Inl e)
    with assms s show ?thesis
      by (auto simp: phrase_round_trip_def Let_def)
  next
    case student: (Inr msg)
    let ?g = "generate_socratic_response_stream (tk_server tk) (r_text r) ctx
                (get_conversation_history (Some 10) m1)"
    show ?thesis
    proof (cases ?g)
      case (Inl e)
      with assms s student show ?thesis
        by (auto simp: phrase_round_trip_def Let_def)
    next
      case (Inr pc)
      then obtain p chunks where g: "?g = Inr (p, chunks)" by (cases pc) auto
      obtain a2 m2 fs2 where
        b: "add_message ''bot'' (concat chunks) (tk_bot_stamp tk) (tk_bot_saved tk) m1 fs1 =
              (a2, m2, fs2)"
        by (cases "add_message ''bot'' (concat chunks) (tk_bot_stamp tk) (tk_bot_saved tk)
              m1 fs1") auto
      show ?thesis
      proof (cases a2)
        case (Inl e)
        with assms s student g b show ?thesis
          by (auto simp: phrase_round_trip_def Let_def stream_response_eq
              no_pausing_in_chunks)
      next
        case (Inr msg2)
        with assms s student g b show ?thesis
          by (auto simp: phrase_round_trip_def Let_def stream_response_eq
              no_pausing_in_chunks)
      qed
    qed
  qed
qed

lemma handle_pausing:
  "r_pausing r \<Longrightarrow>
   handle_result ctx tk (Some r) st =
     (if \<forall>lp. last_pausing_time st = Some lp \<longrightarrow> lp + 500000 \<le> tk_check tk
      then ([Status (Pausing (r_time_remaining r))], [], Sleeps,
            st\<lparr>last_pausing_time := Some (tk_set tk)\<rparr>)
      else ([], [], Sleeps, st))"
  unfolding handle_result_def Let_def throttle_guard
  by (simp split: option.splits)

lemma handle_complete_cases:
  assumes "\<not> r_pausing r" and "r_phrase_complete r"
    and "handle_result ctx tk (Some r) st = (sent, posted, out, st1)"
  shows "\<not> list_ex is_pausing sent
         \<and> (out = Sleeps \<or> out = Continues \<longrightarrow> last_pausing_time st1 = None)"
proof (cases "strip (r_text r) = []")
  case True
  with assms show ?thesis by (auto simp: handle_result_def Let_def)
next
  case False
  with assms have "phrase_round_trip ctx tk r st = (sent, posted, out, st1)"
    by (simp add: handle_result_def Let_def)
  from phrase_round_trip_cases [OF this] show ?thesis
    by (cases out) auto
qed

text \<open>What one iteration does to the throttle, case by case.\<close>

lemma iteration_cases:
  assumes "loop_iteration asr ctx tk w = (sent, posted, out, s1, st1)"
  shows "(list_ex is_pausing sent \<and> out = Sleeps
          \<and> last_pausing_time st1 = Some (tk_set tk) \<and> phrase_bytes (fst w) \<noteq> []
          \<and> (\<forall>lp. last_pausing_time (snd w) = Some lp \<longrightarrow> lp + 500000 \<le> tk_check tk))
       \<or> (\<not> list_ex is_pausing sent \<and> out = Sleeps
          \<and> (last_pausing_time st1 = None
              \<or> last_pausing_time st1 = last_pausing_time (snd w)))
       \<or> (\<not> list_ex is_pausing sent \<and> out = Continues
          \<and> last_pausing_time st1 = None \<and> phrase_bytes s1 = [])
       \<or> (\<not> list_ex is_pausing sent \<and> (\<exists>e. out = Raises e))"
proof -
  let ?s0 = "foldl (\<lambda>s chunk. record_callback chunk s) (fst w) (tk_audio tk)"
  obtain result s1' where t: "process_audio_queue asr (tk_now tk) ?s0 = (result, s1')"
    by (cases "process_audio_queue asr (tk_now tk) ?s0")
  with assms have h: "handle_result ctx tk result (snd w) = (sent, posted, out, st1)"
    and s1: "s1' = s1"
    by (auto simp: loop_iteration_def Let_def split: prod.splits)
  from tick_cases [OF t] consider
      (idle) "result = None"
    | (pausing) r where "result = Some r" "r_pausing r" "phrase_bytes ?s0 \<noteq> []"
    | (complete) r where "result = Some r" "\<not> r_pausing r" "r_phrase_complete r"
        "phrase_bytes s1' = []"
    | (live) r where "result = Some r" "is_live r"
    by blast
  then show ?thesis
  proof cases
    case idle
    with h show ?thesis by (auto simp: handle_result_def)
  next
    case pausing
    from pausing(3) have "phrase_bytes (fst w) \<noteq> []" by (simp add: puts_keep_buffer)
    with h pausing(1,2) show ?thesis
      by (auto simp: handle_pausing split: if_splits)
  next
    case complete
    from handle_complete_cases [OF complete(2,3) h [unfolded complete(1)]]
    have np: "\<not> list_ex is_pausing sent"
      and lp: "out = Sleeps \<or> out = Continues \<Longrightarrow> last_pausing_time st1 = None"
      by blast+
    show ?thesis
    proof (cases out)
      case Sleeps
      with np lp show ?thesis by auto
    next
      case Continues
      with np lp complete(4) s1 show ?thesis by auto
    next
      case (Raises e)
      with np show ?thesis by auto
    qed
  next
    case live
    with h show ?thesis by (auto simp: handle_live split: if_splits)
  qed
qed

lemma throttle_inv_after_sleep:
  assumes "throttle_inv l t0 w" and "t0 + 250000 \<le> t1"
    and "last_pausing_time st1 = None \<or> last_pausing_time st1 = last_pausing_time (snd w)"
  shows "throttle_inv l t1 (s1, st1)"
  using assms by (auto simp: throttle_inv_def split: option.splits)

lemma throttle_inv_after_continue:
  assumes "throttle_inv l t0 w" and "t0 \<le> t1"
    and "last_pausing_time st1 = None" and "phrase_bytes s1 = []"
  shows "throttle_inv l t1 (s1, st1)"
  using assms by (auto simp: throttle_inv_def split: option.splits)

lemma throttle_inv_emits:
  assumes "throttle_inv l t0 w" and "t0 \<le> tk_check tk"
    and "phrase_bytes (fst w) \<noteq> []"
    and "\<forall>lp. last_pausing_time (snd w) = Some lp \<longrightarrow> lp + 500000 \<le> tk_check tk"
  shows "l + 500000 \<le> tk_check tk"
  using assms by (auto simp: throttle_inv_def split: option.splits)

lemma spaced_from:
  "clock_ok asr ctx t0 tks w \<Longrightarrow> throttle_inv l t0 w \<Longrightarrow>
   spaced ((c, l) # pausing_log (run_loop asr ctx tks w))"
proof (induction tks arbitrary: t0 w l c)
  case Nil
  then show ?case by simp
next
  case (Cons tk tks)
  obtain sent posted out s1 st1
    where it: "loop_iteration asr ctx tk w = (sent, posted, out, s1, st1)"
    by (cases "loop_iteration asr ctx tk w") auto
  from Cons.prems(1) have clk: "t0 \<le> tk_now tk" "tk_now tk \<le> tk_check tk"
    "tk_check tk \<le> tk_set tk"
    by simp_all
  from iteration_cases [OF it] consider
      (emits) "list_ex is_pausing sent" "out = Sleeps"
        "last_pausing_time st1 = Some (tk_set tk)" "phrase_bytes (fst w) \<noteq> []"
        "\<forall>lp. last_pausing_time (snd w) = Some lp \<longrightarrow> lp + 500000 \<le> tk_check tk"
    | (sleeps) "\<not> list_ex is_pausing sent" "out = Sleeps"
        "last_pausing_time st1 = None \<or> last_pausing_time st1 = last_pausing_time (snd w)"
    | (continues) "\<not> list_ex is_pausing sent" "out = Continues"
        "last_pausing_time st1 = None" "phrase_bytes s1 = []"
    | (raises) e where "\<not> list_ex is_pausing sent" "out = Raises e"
    by (elim disjE conjE exE) auto
  then show ?case
  proof cases
    case emits
    from Cons.prems(1) it emits(2)
    have ck: "clock_ok asr ctx (tk_set tk + 250000) tks (s1, st1)" by simp
    have inv: "throttle_inv (tk_set tk) (tk_set tk + 250000) (s1, st1)"
      using emits(3) by (simp add: throttle_inv_def)
    have gap: "l + 500000 \<le> tk_check tk"
      using throttle_inv_emits [OF Cons.prems(2) _ emits(4,5)] clk by simp
    from Cons.IH [OF ck inv, of "tk_check tk"] gap it emits(1,2) show ?thesis by simp
  next
    case sleeps
    from Cons.prems(1) it sleeps(2)
    have ck: "clock_ok asr ctx (tk_set tk + 250000) tks (s1, st1)" by simp
    have inv: "throttle_inv l (tk_set tk + 250000) (s1, st1)"
      using throttle_inv_after_sleep [OF Cons.prems(2) _ sleeps(3)] clk by simp
    from Cons.IH [OF ck inv, of c] it sleeps(1,2) show ?thesis by simp
  next
    case continues
    from Cons.prems(1) it continues(2)
    have ck: "clock_ok asr ctx (tk_set tk) tks (s1, st1)" by simp
    have inv: "throttle_inv l (tk_set tk) (s1, st1)"
      using throttle_inv_after_continue [OF Cons.prems(2) _ continues(3,4)] clk by simp
    from Cons.IH [OF ck inv, of c] it continues(1,2) show ?thesis by simp
  next
    case raises
    with it show ?thesis by simp
  qed
qed

text \<open>
  Claim C6.  Along every run of the loop in which the clock does not run backwards
  and each \<^verbatim>\<open>asyncio.sleep(0.25)\<close> lasts at least 250 ms, any two consecutive pausing
  messages are at least 500 ms apart, whatever else is sent between them: the
  throttle test of the later one is read at least 500000 microseconds after the
  instant stored for the earlier one.
\<close>

theorem C6_pausing_messages_spaced:
  assumes "clock_ok asr ctx t0 tks (s, enter_loop m fs)"
  shows "spaced (pausing_log (run_loop asr ctx tks (s, enter_loop m fs)))"
proof -
  have "throttle_inv (t0 - 500000) t0 (s, enter_loop m fs)"
    by (simp add: throttle_inv_def enter_loop_def)
  from spaced_from [OF assms this, of "t0 - 500000"]
  show ?thesis
    by (cases "pausing_log (run_loop asr ctx tks (s, enter_loop m fs))") simp_all
qed

theorem C6_pausing_messages_spaced_witness:
  "clock_ok (\<lambda>b. if length b \<le> 2 then ''a'' else ''b'') ''essay'' 0
     [demo_tick 0 [[1, 2]] [], demo_tick 250000 [] [],
      demo_tick 500000 [[3, 4]] [], demo_tick 750000 [] []]
     (init_stt 5, enter_loop demo_manager Map.empty)
   \<and> pausing_log (run_loop (\<lambda>b. if length b \<le> 2 then ''a'' else ''b'') ''essay''
        [demo_tick 0 [[1, 2]] [], demo_tick 250000 [] [],
         demo_tick 500000 [[3, 4]] [], demo_tick 750000 [] []]
        (init_stt 5, enter_loop demo_manager Map.empty)) =
       [(250000, 250000), (750000, 750000)]
   \<and> spaced (pausing_log (run_loop (\<lambda>b. if length b \<le> 2 then ''a'' else ''b'') ''essay''
        [demo_tick 0 [[1, 2]] [], demo_tick 250000 [] [],
         demo_tick 500000 [[3, 4]] [], demo_tick 750000 [] []]
        (init_stt 5, enter_loop demo_manager Map.empty)))"
proof -
  let ?asr = "\<lambda>b::bytes. if length b \<le> 2 then ''a'' else ''b''"
  let ?w0 = "(init_stt 5, enter_loop demo_manager Map.empty)"
  let ?w1 = "(\<lparr>phrase_timeout = 5, data_queue = [], phrase_bytes = [1, 2], phrase_time = Some 0\<rparr>,
              \<lparr>current_student_text = ''a'', last_pausing_time = None,
               manager = demo_manager, files = Map.empty\<rparr>)"
  let ?w2 = "(\<lparr>phrase_timeout = 5, data_queue = [], phrase_bytes = [1, 2], phrase_time = Some 0\<rparr>,
              \<lparr>current_student_text = ''a'', last_pausing_time = Some 250000,
               manager = demo_manager, files = Map.empty\<rparr>)"
  let ?w3 = "(\<lparr>phrase_timeout = 5, data_queue = [], phrase_bytes = [1, 2, 3, 4],
               phrase_time = Some 500000\<rparr>,
              \<lparr>current_student_text = ''b'', last_pausing_time = None,
               manager = demo_manager, files = Map.empty\<rparr>)"
  let ?w4 = "(\<lparr>phrase_timeout = 5, data_queue = [], phrase_bytes = [1, 2, 3, 4],
               phrase_time = Some 500000\<rparr>,
              \<lparr>current_student_text = ''b'', last_pausing_time = Some 750000,
               manager = demo_manager, files = Map.empty\<rparr>)"
  have sa: "strip ''a'' = ''a''" "strip ''b'' = ''b''"
    by (simp_all add: strip_def isspace_def)
  have i1: "loop_iteration ?asr ''essay'' (demo_tick 0 [[1, 2]] []) ?w0 =
              ([Transcription ''a'' False 0, Status Listening], [], Sleeps, ?w1)"
    by (simp add: loop_iteration_def process_audio_queue_def handle_result_def
        record_callback_def demo_tick_def init_stt_def enter_loop_def sa Let_def)
  have i2: "loop_iteration ?asr ''essay'' (demo_tick 250000 [] []) ?w1 =
              ([Status (Pausing (19 / 4))], [], Sleeps, ?w2)"
    by (simp add: loop_iteration_def process_audio_queue_def handle_result_def
        demo_tick_def total_seconds_def Let_def)
  have i3: "loop_iteration ?asr ''essay'' (demo_tick 500000 [[3, 4]] []) ?w2 =
              ([Transcription ''b'' False 500000, Status Listening], [], Sleeps, ?w3)"
    by (simp add: loop_iteration_def process_audio_queue_def handle_result_def
        record_callback_def demo_tick_def sa Let_def)
  have i4: "loop_iteration ?asr ''essay'' (demo_tick 750000 [] []) ?w3 =
              ([Status (Pausing (19 / 4))], [], Sleeps, ?w4)"
    by (simp add: loop_iteration_def process_audio_queue_def handle_result_def
        demo_tick_def total_seconds_def Let_def)
  have t: "tk_now (demo_tick t a b) = t" "tk_check (demo_tick t a b) = t"
    "tk_set (demo_tick t a b) = t" for t a b
    by (simp_all add: demo_tick_def)
  have ck: "clock_ok ?asr ''essay'' 0
     [demo_tick 0 [[1, 2]] [], demo_tick 250000 [] [],
      demo_tick 500000 [[3, 4]] [], demo_tick 750000 [] []] ?w0"
    by (simp add: i1 i2 i3 i4 t)
  have lg: "pausing_log (run_loop ?asr ''essay''
        [demo_tick 0 [[1, 2]] [], demo_tick 250000 [] [],
         demo_tick 500000 [[3, 4]] [], demo_tick 750000 [] []] ?w0) =
       [(250000, 250000), (750000, 750000)]"
    by (simp add: i1 i2 i3 i4 t)
  from C6_pausing_messages_spaced [OF ck] ck lg show ?thesis by blast
qed

end
